theory Spec2Isabelle
  imports Main "HOL-Library.Word" "HOL-Library.Monad_Syntax"
begin

unbundle bit_operations_syntax

section \<open>AES-NI support functions of mbed TLS (library/aesni.c)\<close>

text \<open>
  The development embeds \<^verbatim>\<open>library/aesni.c\<close>: the capability probe, the single-block
  AES-ECB routine, the three key expansions with their wrapper, the derivation of the
  decryption round keys and the GCM multiplication in GF(2^128).

  C objects are modelled as follows. An \<^verbatim>\<open>unsigned char\<close> buffer is a list of bytes
  (\<open>8 word list\<close>) and a pointer into it is an offset. An \<^verbatim>\<open>__m128i\<close> value, or an
  \<^verbatim>\<open>xmm\<close> register, is a \<open>128 word\<close>. An access outside a buffer is undefined
  behaviour in C and is the value \<open>None\<close> here.
\<close>

subsection \<open>Byte buffers\<close>

text \<open>
  A read or a write of \<open>n\<close> bytes at offset \<open>off\<close> of a buffer is defined when the
  whole range lies inside the buffer. Offsets are integers, since the source moves
  pointers in both directions.
\<close>

definition in_bounds :: "8 word list \<Rightarrow> int \<Rightarrow> nat \<Rightarrow> bool" where
  "in_bounds mem off n \<longleftrightarrow> 0 \<le> off \<and> nat off + n \<le> length mem"

definition load_bytes :: "8 word list \<Rightarrow> int \<Rightarrow> nat \<Rightarrow> 8 word list option" where
  "load_bytes mem off n =
     (if in_bounds mem off n then Some (take n (drop (nat off) mem)) else None)"

definition store_bytes :: "8 word list \<Rightarrow> int \<Rightarrow> 8 word list \<Rightarrow> 8 word list option" where
  "store_bytes mem off bs =
     (if in_bounds mem off (length bs)
      then Some (take (nat off) mem @ bs @ drop (nat off + length bs) mem) else None)"

text \<open>
  \<^verbatim>\<open>memcpy( dst + d, src + s, n )\<close> between two buffers that do not overlap.
\<close>

definition memcpy ::
  "8 word list \<Rightarrow> int \<Rightarrow> 8 word list \<Rightarrow> int \<Rightarrow> nat \<Rightarrow> 8 word list option" where
  "memcpy dst d src s n = do { bs \<leftarrow> load_bytes src s n; store_bytes dst d bs }"

text \<open>x86 is little-endian: the byte at the lowest address is the least significant.\<close>

definition le_word :: "8 word list \<Rightarrow> 'a::len word" where
  "le_word bs = word_of_int (horner_sum uint (2 ^ 8) bs)"

definition le_bytes :: "nat \<Rightarrow> 'a::len word \<Rightarrow> 8 word list" where
  "le_bytes n x = map (\<lambda>i. ucast (drop_bit (8 * i) x)) [0..<n]"

subsection \<open>SSE2 operations on 128-bit values\<close>

text \<open>
  The intrinsics and instructions below are not code of the repository: they are the
  platform the file is written against. Each is defined as the Intel 64 instruction set
  reference specifies it; the AES transformations are those of FIPS-197. The intrinsic
  \<^verbatim>\<open>_mm_foo\<close> is written \<open>mm_foo\<close>.
\<close>

definition mm_loadu_si128 :: "8 word list \<Rightarrow> int \<Rightarrow> 128 word option" where
  "mm_loadu_si128 mem off = map_option le_word (load_bytes mem off 16)"

definition mm_storeu_si128 :: "8 word list \<Rightarrow> int \<Rightarrow> 128 word \<Rightarrow> 8 word list option" where
  "mm_storeu_si128 mem off x = store_bytes mem off (le_bytes 16 x)"

text \<open>The 64-bit and 32-bit lanes of a 128-bit value, lane 0 the least significant.\<close>

definition m128i_u64 :: "128 word \<Rightarrow> nat \<Rightarrow> 64 word" where
  "m128i_u64 a i = ucast (drop_bit (64 * i) a)"

definition m128i_u32 :: "128 word \<Rightarrow> nat \<Rightarrow> 32 word" where
  "m128i_u32 a i = ucast (drop_bit (32 * i) a)"

definition mm_set_epi64x :: "64 word \<Rightarrow> 64 word \<Rightarrow> 128 word" where
  "mm_set_epi64x e1 e0 = push_bit 64 (ucast e1) OR ucast e0"

definition mm_set_epi32 :: "32 word \<Rightarrow> 32 word \<Rightarrow> 32 word \<Rightarrow> 32 word \<Rightarrow> 128 word" where
  "mm_set_epi32 e3 e2 e1 e0 =
     push_bit 96 (ucast e3) OR push_bit 64 (ucast e2) OR push_bit 32 (ucast e1) OR ucast e0"

definition mm_xor_si128 :: "128 word \<Rightarrow> 128 word \<Rightarrow> 128 word" where
  "mm_xor_si128 a b = a XOR b"

definition mm_or_si128 :: "128 word \<Rightarrow> 128 word \<Rightarrow> 128 word" where
  "mm_or_si128 a b = a OR b"

text \<open>Shifts of the whole value by \<open>n\<close> bytes (\<^verbatim>\<open>pslldq\<close>, \<^verbatim>\<open>psrldq\<close>).\<close>

definition mm_slli_si128 :: "128 word \<Rightarrow> nat \<Rightarrow> 128 word" where
  "mm_slli_si128 a n = push_bit (8 * n) a"

definition mm_srli_si128 :: "128 word \<Rightarrow> nat \<Rightarrow> 128 word" where
  "mm_srli_si128 a n = drop_bit (8 * n) a"

text \<open>Shifts of each 64-bit lane by \<open>n\<close> bits (\<^verbatim>\<open>psllq\<close>, \<^verbatim>\<open>psrlq\<close>).\<close>

definition mm_slli_epi64 :: "128 word \<Rightarrow> nat \<Rightarrow> 128 word" where
  "mm_slli_epi64 a n = mm_set_epi64x (push_bit n (m128i_u64 a 1)) (push_bit n (m128i_u64 a 0))"

definition mm_srli_epi64 :: "128 word \<Rightarrow> nat \<Rightarrow> 128 word" where
  "mm_srli_epi64 a n = mm_set_epi64x (drop_bit n (m128i_u64 a 1)) (drop_bit n (m128i_u64 a 0))"

text \<open>
  \<^verbatim>\<open>pshufd\<close>: lane \<open>i\<close> of the result is the lane of \<open>a\<close> selected by bits \<open>2i+1:2i\<close>
  of the immediate.
\<close>

definition mm_shuffle_epi32 :: "128 word \<Rightarrow> 8 word \<Rightarrow> 128 word" where
  "mm_shuffle_epi32 a imm =
     mm_set_epi32 (m128i_u32 a (unat (drop_bit 6 imm AND 3)))
                  (m128i_u32 a (unat (drop_bit 4 imm AND 3)))
                  (m128i_u32 a (unat (drop_bit 2 imm AND 3)))
                  (m128i_u32 a (unat (imm AND 3)))"

text \<open>
  \<^verbatim>\<open>shufpd\<close>: the low lane comes from \<open>a\<close>, selected by bit 0 of the immediate, the
  high lane from \<open>b\<close>, selected by bit 1. The source's macro \<^verbatim>\<open>mm_shuffle_epi64\<close> is
  this operation between casts that do not change the bits.
\<close>

definition mm_shuffle_pd :: "128 word \<Rightarrow> 128 word \<Rightarrow> 8 word \<Rightarrow> 128 word" where
  "mm_shuffle_pd a b imm =
     mm_set_epi64x (m128i_u64 b (if bit imm 1 then 1 else 0))
                   (m128i_u64 a (if bit imm 0 then 1 else 0))"

definition mm_shuffle_epi64 :: "128 word \<Rightarrow> 128 word \<Rightarrow> 8 word \<Rightarrow> 128 word" where
  "mm_shuffle_epi64 a b ctrl = mm_shuffle_pd a b ctrl"

text \<open>\<^verbatim>\<open>_byteswap_uint64\<close> reverses the eight bytes of a 64-bit value.\<close>

definition byteswap_uint64 :: "64 word \<Rightarrow> 64 word" where
  "byteswap_uint64 x = le_word (rev (le_bytes 8 x))"

text \<open>
  \<^verbatim>\<open>movq\<close> between memory and a register: a load reads 8 bytes into the low lane and
  clears the high lane, a store writes the low lane.
\<close>

definition movq_load :: "8 word list \<Rightarrow> int \<Rightarrow> 128 word option" where
  "movq_load mem off = map_option le_word (load_bytes mem off 8)"

definition movq_store :: "8 word list \<Rightarrow> int \<Rightarrow> 128 word \<Rightarrow> 8 word list option" where
  "movq_store mem off x = store_bytes mem off (le_bytes 8 x)"

subsection \<open>The AES transformations of FIPS-197\<close>

text \<open>The S-box (FIPS-197, figure 7) and its inverse (figure 14), row by row.\<close>

definition sbox_table :: "8 word list list" where
  "sbox_table =
    [
     [0x63, 0x7C, 0x77, 0x7B, 0xF2, 0x6B, 0x6F, 0xC5, 0x30, 0x01, 0x67, 0x2B, 0xFE, 0xD7, 0xAB, 0x76],
     [0xCA, 0x82, 0xC9, 0x7D, 0xFA, 0x59, 0x47, 0xF0, 0xAD, 0xD4, 0xA2, 0xAF, 0x9C, 0xA4, 0x72, 0xC0],
     [0xB7, 0xFD, 0x93, 0x26, 0x36, 0x3F, 0xF7, 0xCC, 0x34, 0xA5, 0xE5, 0xF1, 0x71, 0xD8, 0x31, 0x15],
     [0x04, 0xC7, 0x23, 0xC3, 0x18, 0x96, 0x05, 0x9A, 0x07, 0x12, 0x80, 0xE2, 0xEB, 0x27, 0xB2, 0x75],
     [0x09, 0x83, 0x2C, 0x1A, 0x1B, 0x6E, 0x5A, 0xA0, 0x52, 0x3B, 0xD6, 0xB3, 0x29, 0xE3, 0x2F, 0x84],
     [0x53, 0xD1, 0x00, 0xED, 0x20, 0xFC, 0xB1, 0x5B, 0x6A, 0xCB, 0xBE, 0x39, 0x4A, 0x4C, 0x58, 0xCF],
     [0xD0, 0xEF, 0xAA, 0xFB, 0x43, 0x4D, 0x33, 0x85, 0x45, 0xF9, 0x02, 0x7F, 0x50, 0x3C, 0x9F, 0xA8],
     [0x51, 0xA3, 0x40, 0x8F, 0x92, 0x9D, 0x38, 0xF5, 0xBC, 0xB6, 0xDA, 0x21, 0x10, 0xFF, 0xF3, 0xD2],
     [0xCD, 0x0C, 0x13, 0xEC, 0x5F, 0x97, 0x44, 0x17, 0xC4, 0xA7, 0x7E, 0x3D, 0x64, 0x5D, 0x19, 0x73],
     [0x60, 0x81, 0x4F, 0xDC, 0x22, 0x2A, 0x90, 0x88, 0x46, 0xEE, 0xB8, 0x14, 0xDE, 0x5E, 0x0B, 0xDB],
     [0xE0, 0x32, 0x3A, 0x0A, 0x49, 0x06, 0x24, 0x5C, 0xC2, 0xD3, 0xAC, 0x62, 0x91, 0x95, 0xE4, 0x79],
     [0xE7, 0xC8, 0x37, 0x6D, 0x8D, 0xD5, 0x4E, 0xA9, 0x6C, 0x56, 0xF4, 0xEA, 0x65, 0x7A, 0xAE, 0x08],
     [0xBA, 0x78, 0x25, 0x2E, 0x1C, 0xA6, 0xB4, 0xC6, 0xE8, 0xDD, 0x74, 0x1F, 0x4B, 0xBD, 0x8B, 0x8A],
     [0x70, 0x3E, 0xB5, 0x66, 0x48, 0x03, 0xF6, 0x0E, 0x61, 0x35, 0x57, 0xB9, 0x86, 0xC1, 0x1D, 0x9E],
     [0xE1, 0xF8, 0x98, 0x11, 0x69, 0xD9, 0x8E, 0x94, 0x9B, 0x1E, 0x87, 0xE9, 0xCE, 0x55, 0x28, 0xDF],
     [0x8C, 0xA1, 0x89, 0x0D, 0xBF, 0xE6, 0x42, 0x68, 0x41, 0x99, 0x2D, 0x0F, 0xB0, 0x54, 0xBB, 0x16]]"

definition inv_sbox_table :: "8 word list list" where
  "inv_sbox_table =
    [
     [0x52, 0x09, 0x6A, 0xD5, 0x30, 0x36, 0xA5, 0x38, 0xBF, 0x40, 0xA3, 0x9E, 0x81, 0xF3, 0xD7, 0xFB],
     [0x7C, 0xE3, 0x39, 0x82, 0x9B, 0x2F, 0xFF, 0x87, 0x34, 0x8E, 0x43, 0x44, 0xC4, 0xDE, 0xE9, 0xCB],
     [0x54, 0x7B, 0x94, 0x32, 0xA6, 0xC2, 0x23, 0x3D, 0xEE, 0x4C, 0x95, 0x0B, 0x42, 0xFA, 0xC3, 0x4E],
     [0x08, 0x2E, 0xA1, 0x66, 0x28, 0xD9, 0x24, 0xB2, 0x76, 0x5B, 0xA2, 0x49, 0x6D, 0x8B, 0xD1, 0x25],
     [0x72, 0xF8, 0xF6, 0x64, 0x86, 0x68, 0x98, 0x16, 0xD4, 0xA4, 0x5C, 0xCC, 0x5D, 0x65, 0xB6, 0x92],
     [0x6C, 0x70, 0x48, 0x50, 0xFD, 0xED, 0xB9, 0xDA, 0x5E, 0x15, 0x46, 0x57, 0xA7, 0x8D, 0x9D, 0x84],
     [0x90, 0xD8, 0xAB, 0x00, 0x8C, 0xBC, 0xD3, 0x0A, 0xF7, 0xE4, 0x58, 0x05, 0xB8, 0xB3, 0x45, 0x06],
     [0xD0, 0x2C, 0x1E, 0x8F, 0xCA, 0x3F, 0x0F, 0x02, 0xC1, 0xAF, 0xBD, 0x03, 0x01, 0x13, 0x8A, 0x6B],
     [0x3A, 0x91, 0x11, 0x41, 0x4F, 0x67, 0xDC, 0xEA, 0x97, 0xF2, 0xCF, 0xCE, 0xF0, 0xB4, 0xE6, 0x73],
     [0x96, 0xAC, 0x74, 0x22, 0xE7, 0xAD, 0x35, 0x85, 0xE2, 0xF9, 0x37, 0xE8, 0x1C, 0x75, 0xDF, 0x6E],
     [0x47, 0xF1, 0x1A, 0x71, 0x1D, 0x29, 0xC5, 0x89, 0x6F, 0xB7, 0x62, 0x0E, 0xAA, 0x18, 0xBE, 0x1B],
     [0xFC, 0x56, 0x3E, 0x4B, 0xC6, 0xD2, 0x79, 0x20, 0x9A, 0xDB, 0xC0, 0xFE, 0x78, 0xCD, 0x5A, 0xF4],
     [0x1F, 0xDD, 0xA8, 0x33, 0x88, 0x07, 0xC7, 0x31, 0xB1, 0x12, 0x10, 0x59, 0x27, 0x80, 0xEC, 0x5F],
     [0x60, 0x51, 0x7F, 0xA9, 0x19, 0xB5, 0x4A, 0x0D, 0x2D, 0xE5, 0x7A, 0x9F, 0x93, 0xC9, 0x9C, 0xEF],
     [0xA0, 0xE0, 0x3B, 0x4D, 0xAE, 0x2A, 0xF5, 0xB0, 0xC8, 0xEB, 0xBB, 0x3C, 0x83, 0x53, 0x99, 0x61],
     [0x17, 0x2B, 0x04, 0x7E, 0xBA, 0x77, 0xD6, 0x26, 0xE1, 0x69, 0x14, 0x63, 0x55, 0x21, 0x0C, 0x7D]]"

definition SubByte :: "8 word \<Rightarrow> 8 word" where
  "SubByte b = sbox_table ! (unat b div 16) ! (unat b mod 16)"

definition InvSubByte :: "8 word \<Rightarrow> 8 word" where
  "InvSubByte b = inv_sbox_table ! (unat b div 16) ! (unat b mod 16)"

text \<open>
  Multiplication in GF(2^8) modulo \<open>x^8 + x^4 + x^3 + x + 1\<close> (0x11B): \<open>xtime\<close> multiplies
  by \<open>x\<close>, and a product is the sum of the \<open>xtime\<close> multiples selected by the bits of
  the first factor.
\<close>

definition xtime :: "8 word \<Rightarrow> 8 word" where
  "xtime b = (if bit b 7 then push_bit 1 b XOR 0x1B else push_bit 1 b)"

fun gf_mul_bits :: "nat \<Rightarrow> 8 word \<Rightarrow> 8 word \<Rightarrow> 8 word" where
  "gf_mul_bits 0 c a = 0"
| "gf_mul_bits (Suc n) c a =
     (if bit c 0 then a else 0) XOR gf_mul_bits n (drop_bit 1 c) (xtime a)"

definition gf_mul :: "8 word \<Rightarrow> 8 word \<Rightarrow> 8 word" where
  "gf_mul c a = gf_mul_bits 8 c a"

text \<open>
  The state is the list of the 16 bytes of a 128-bit value, least significant first;
  byte \<open>r + 4c\<close> is row \<open>r\<close> of column \<open>c\<close>.
\<close>

definition SubBytes :: "8 word list \<Rightarrow> 8 word list" where
  "SubBytes s = map SubByte s"

definition InvSubBytes :: "8 word list \<Rightarrow> 8 word list" where
  "InvSubBytes s = map InvSubByte s"

definition ShiftRows :: "8 word list \<Rightarrow> 8 word list" where
  "ShiftRows s = map (\<lambda>i. s ! i) [0, 5, 10, 15, 4, 9, 14, 3, 8, 13, 2, 7, 12, 1, 6, 11]"

definition InvShiftRows :: "8 word list \<Rightarrow> 8 word list" where
  "InvShiftRows s = map (\<lambda>i. s ! i) [0, 13, 10, 7, 4, 1, 14, 11, 8, 5, 2, 15, 12, 9, 6, 3]"

fun MixColumns :: "8 word list \<Rightarrow> 8 word list" where
  "MixColumns (a0 # a1 # a2 # a3 # s) =
     (gf_mul 2 a0 XOR gf_mul 3 a1 XOR a2 XOR a3) #
     (a0 XOR gf_mul 2 a1 XOR gf_mul 3 a2 XOR a3) #
     (a0 XOR a1 XOR gf_mul 2 a2 XOR gf_mul 3 a3) #
     (gf_mul 3 a0 XOR a1 XOR a2 XOR gf_mul 2 a3) # MixColumns s"
| "MixColumns s = []"

fun InvMixColumns :: "8 word list \<Rightarrow> 8 word list" where
  "InvMixColumns (a0 # a1 # a2 # a3 # s) =
     (gf_mul 0x0E a0 XOR gf_mul 0x0B a1 XOR gf_mul 0x0D a2 XOR gf_mul 0x09 a3) #
     (gf_mul 0x09 a0 XOR gf_mul 0x0E a1 XOR gf_mul 0x0B a2 XOR gf_mul 0x0D a3) #
     (gf_mul 0x0D a0 XOR gf_mul 0x09 a1 XOR gf_mul 0x0E a2 XOR gf_mul 0x0B a3) #
     (gf_mul 0x0B a0 XOR gf_mul 0x0D a1 XOR gf_mul 0x09 a2 XOR gf_mul 0x0E a3) #
     InvMixColumns s"
| "InvMixColumns s = []"

text \<open>\<open>SubWord\<close> substitutes the four bytes of a word; \<open>RotWord\<close> rotates it right by 8 bits.\<close>

definition SubWord :: "32 word \<Rightarrow> 32 word" where
  "SubWord w = le_word (map SubByte (le_bytes 4 w))"

definition RotWord :: "32 word \<Rightarrow> 32 word" where
  "RotWord w = drop_bit 8 w OR push_bit 24 w"

subsection \<open>The AES-NI and carry-less multiplication instructions\<close>

definition mm_aesenc_si128 :: "128 word \<Rightarrow> 128 word \<Rightarrow> 128 word" where
  "mm_aesenc_si128 a RoundKey =
     le_word (MixColumns (SubBytes (ShiftRows (le_bytes 16 a)))) XOR RoundKey"

definition mm_aesenclast_si128 :: "128 word \<Rightarrow> 128 word \<Rightarrow> 128 word" where
  "mm_aesenclast_si128 a RoundKey =
     le_word (SubBytes (ShiftRows (le_bytes 16 a))) XOR RoundKey"

definition mm_aesdec_si128 :: "128 word \<Rightarrow> 128 word \<Rightarrow> 128 word" where
  "mm_aesdec_si128 a RoundKey =
     le_word (InvMixColumns (InvSubBytes (InvShiftRows (le_bytes 16 a)))) XOR RoundKey"

definition mm_aesdeclast_si128 :: "128 word \<Rightarrow> 128 word \<Rightarrow> 128 word" where
  "mm_aesdeclast_si128 a RoundKey =
     le_word (InvSubBytes (InvShiftRows (le_bytes 16 a))) XOR RoundKey"

definition mm_aesimc_si128 :: "128 word \<Rightarrow> 128 word" where
  "mm_aesimc_si128 a = le_word (InvMixColumns (le_bytes 16 a))"

definition mm_aeskeygenassist_si128 :: "128 word \<Rightarrow> 8 word \<Rightarrow> 128 word" where
  "mm_aeskeygenassist_si128 a rcon =
     mm_set_epi32 (RotWord (SubWord (m128i_u32 a 3)) XOR ucast rcon)
                  (SubWord (m128i_u32 a 3))
                  (RotWord (SubWord (m128i_u32 a 1)) XOR ucast rcon)
                  (SubWord (m128i_u32 a 1))"

text \<open>
  The carry-less product of two 64-bit values: bit \<open>n\<close> of the result is the sum
  modulo 2 of the products \<open>a\<^sub>i b\<^sub>j\<close> with \<open>i + j = n\<close>.
\<close>

definition clmul64 :: "64 word \<Rightarrow> 64 word \<Rightarrow> 128 word" where
  "clmul64 a b =
     foldr (\<lambda>i acc. if bit a i then acc XOR push_bit i (ucast b) else acc) [0..<64] 0"

text \<open>
  \<^verbatim>\<open>pclmulqdq\<close>: bit 0 of the immediate selects the lane of the first operand, bit 4
  the lane of the second.
\<close>

definition mm_clmulepi64_si128 :: "128 word \<Rightarrow> 128 word \<Rightarrow> 8 word \<Rightarrow> 128 word" where
  "mm_clmulepi64_si128 a b imm =
     clmul64 (m128i_u64 a (if bit imm 0 then 1 else 0))
             (m128i_u64 b (if bit imm 4 then 1 else 0))"

subsection \<open>AES-NI support detection routine\<close>

text \<open>
  The two function-local statics \<^verbatim>\<open>done\<close> and \<^verbatim>\<open>c\<close> of
  \<^verbatim>\<open>mbedtls_aesni_has_support\<close> are process-wide state. (The field names carry a prefix
  because \<^verbatim>\<open>done\<close> is a keyword of the proof language.)
\<close>

record has_support_statics =
  hs_done :: int
  hs_c :: "32 word"

text \<open>The initializers \<^verbatim>\<open>static int done = 0; static unsigned int c = 0;\<close>.\<close>

definition has_support_init :: has_support_statics where
  "has_support_init = \<lparr>hs_done = 0, hs_c = 0\<rparr>"

text \<open>
  \<^verbatim>\<open>mbedtls_aesni_has_support( what )\<close>. The first argument \<open>ecx\<close> is what the
  \<^verbatim>\<open>cpuid\<close> instruction with \<^verbatim>\<open>eax = 1\<close> would leave in \<^verbatim>\<open>ecx\<close> if it were executed
  during this call; it is an input from the environment and may differ from call to
  call. The result is the returned \<^verbatim>\<open>int\<close> and the statics after the call.
\<close>

definition mbedtls_aesni_has_support ::
  "32 word \<Rightarrow> has_support_statics \<Rightarrow> 32 word \<Rightarrow> int \<times> has_support_statics" where
  "mbedtls_aesni_has_support ecx st what =
     (let st' = (if hs_done st = 0 then st\<lparr>hs_c := ecx, hs_done := 1\<rparr> else st)
      in ((if (hs_c st' AND what) \<noteq> 0 then 1 else 0), st'))"

text \<open>
  Whether a call executes the \<^verbatim>\<open>cpuid\<close> query: the guard \<^verbatim>\<open>if( ! done )\<close>.
\<close>

definition executes_cpuid :: "has_support_statics \<Rightarrow> bool" where
  "executes_cpuid st \<longleftrightarrow> hs_done st = 0"

text \<open>
  A process run is a sequence of calls. Each call is a pair \<open>(ecx, what)\<close> of the
  environment's \<^verbatim>\<open>cpuid\<close> answer at that moment and the mask passed by the caller. The
  run lists, for each call, whether it executed \<^verbatim>\<open>cpuid\<close> and what it returned.
\<close>

fun has_support_run ::
  "has_support_statics \<Rightarrow> (32 word \<times> 32 word) list \<Rightarrow> (bool \<times> int) list" where
  "has_support_run st [] = []"
| "has_support_run st ((ecx, what) # calls) =
     (executes_cpuid st, fst (mbedtls_aesni_has_support ecx st what))
       # has_support_run (snd (mbedtls_aesni_has_support ecx st what)) calls"


subsection \<open>The two variants of the source\<close>

text \<open>
  Every function but the support detection is written twice in the source: with
  compiler intrinsics where \<^verbatim>\<open>USE_MSVC_X64_INTRINSICS\<close> is defined (Microsoft's compiler
  targeting x64) and with inline assembly otherwise. The preprocessor's choice is a
  parameter of the model.
\<close>

datatype variant = INLINE_ASM | USE_MSVC_X64_INTRINSICS

subsection \<open>AES-ECB block en(de)cryption\<close>

text \<open>
  The type \<^verbatim>\<open>mbedtls_aes_context\<close> and the two mode constants are declared in
  \<^verbatim>\<open>mbedtls/aes.h\<close>, which is not among the sources. The functions here use the
  fields \<^verbatim>\<open>nr\<close> (the number of rounds, an \<^verbatim>\<open>int\<close>) and \<^verbatim>\<open>rk\<close> (the pointer to the
  round keys); the model holds the buffer \<^verbatim>\<open>rk\<close> points to. The assembly's comment
  fixes the decryption mode as 0; encryption is 1 in the header.
\<close>

record mbedtls_aes_context =
  aes_nr :: int
  aes_rk :: "8 word list"

definition MBEDTLS_AES_ENCRYPT :: int where
  "MBEDTLS_AES_ENCRYPT = 1"

definition MBEDTLS_AES_DECRYPT :: int where
  "MBEDTLS_AES_DECRYPT = 0"

text \<open>
  The loop \<^verbatim>\<open>for (i = ctx->nr - 1; i; --i) a = round( a, _mm_loadu_si128( rk++ ) )\<close> of the
  intrinsics variant, for either round function. The pointer \<^verbatim>\<open>rk\<close> is an offset into
  the round-key buffer. A negative counter would have to run down to \<^verbatim>\<open>INT_MIN\<close> and
  overflow before reaching 0: undefined behaviour.
\<close>

function crypt_ecb_rounds ::
  "(128 word \<Rightarrow> 128 word \<Rightarrow> 128 word) \<Rightarrow> int \<Rightarrow> 8 word list \<Rightarrow> int \<Rightarrow> 128 word
     \<Rightarrow> (int \<times> 128 word) option" where
  "crypt_ecb_rounds round i rkbuf rk a =
     (if i = 0 then Some (rk, a)
      else if i < 0 then None
      else do {
        k \<leftarrow> mm_loadu_si128 rkbuf rk;
        crypt_ecb_rounds round (i - 1) rkbuf (rk + 16) (round a k)
      })"
  by pat_completeness auto
termination
  by (relation "measure (\<lambda>(round, i, rkbuf, rk, a). nat i)") auto

text \<open>
  The result is the returned \<^verbatim>\<open>int\<close> and the output buffer after the call. The input
  is read completely before the output is written, so the two may be the same array.
\<close>

definition crypt_ecb_intrinsics ::
  "mbedtls_aes_context \<Rightarrow> int \<Rightarrow> 8 word list \<Rightarrow> 8 word list \<Rightarrow> (int \<times> 8 word list) option" where
  "crypt_ecb_intrinsics ctx mode input output = do {
     x \<leftarrow> mm_loadu_si128 input 0;
     k \<leftarrow> mm_loadu_si128 (aes_rk ctx) 0;
     let a = mm_xor_si128 x k;
     a \<leftarrow> (if mode = MBEDTLS_AES_ENCRYPT
          then do {
            (rk, a) \<leftarrow> crypt_ecb_rounds mm_aesenc_si128 (aes_nr ctx - 1) (aes_rk ctx) 16 a;
            k \<leftarrow> mm_loadu_si128 (aes_rk ctx) rk;
            Some (mm_aesenclast_si128 a k)
          }
          else do {
            (rk, a) \<leftarrow> crypt_ecb_rounds mm_aesdec_si128 (aes_nr ctx - 1) (aes_rk ctx) 16 a;
            k \<leftarrow> mm_loadu_si128 (aes_rk ctx) rk;
            Some (mm_aesdeclast_si128 a k)
          });
     output \<leftarrow> mm_storeu_si128 output 0 a;
     Some (0, output)
   }"

subsection \<open>The instructions of the inline assembly\<close>

text \<open>
  The assembly is written in AT\&T order, source before destination, and so are the
  functions here; each returns the new value of its destination. The macros
  \<^verbatim>\<open>AESENC xmm1_xmm0\<close> and the like name the source register first as well.
\<close>

definition pxor :: "128 word \<Rightarrow> 128 word \<Rightarrow> 128 word" where
  "pxor src dst = mm_xor_si128 dst src"

definition por :: "128 word \<Rightarrow> 128 word \<Rightarrow> 128 word" where
  "por src dst = mm_or_si128 dst src"

definition pslldq :: "nat \<Rightarrow> 128 word \<Rightarrow> 128 word" where
  "pslldq imm dst = mm_slli_si128 dst imm"

definition psrldq :: "nat \<Rightarrow> 128 word \<Rightarrow> 128 word" where
  "psrldq imm dst = mm_srli_si128 dst imm"

definition psllq :: "nat \<Rightarrow> 128 word \<Rightarrow> 128 word" where
  "psllq imm dst = mm_slli_epi64 dst imm"

definition psrlq :: "nat \<Rightarrow> 128 word \<Rightarrow> 128 word" where
  "psrlq imm dst = mm_srli_epi64 dst imm"

definition pshufd :: "8 word \<Rightarrow> 128 word \<Rightarrow> 128 word" where
  "pshufd imm src = mm_shuffle_epi32 src imm"

definition AESENC :: "128 word \<Rightarrow> 128 word \<Rightarrow> 128 word" where
  "AESENC src dst = mm_aesenc_si128 dst src"

definition AESENCLAST :: "128 word \<Rightarrow> 128 word \<Rightarrow> 128 word" where
  "AESENCLAST src dst = mm_aesenclast_si128 dst src"

definition AESDEC :: "128 word \<Rightarrow> 128 word \<Rightarrow> 128 word" where
  "AESDEC src dst = mm_aesdec_si128 dst src"

definition AESDECLAST :: "128 word \<Rightarrow> 128 word \<Rightarrow> 128 word" where
  "AESDECLAST src dst = mm_aesdeclast_si128 dst src"

definition AESIMC :: "128 word \<Rightarrow> 128 word" where
  "AESIMC src = mm_aesimc_si128 src"

definition AESKEYGENA :: "128 word \<Rightarrow> 8 word \<Rightarrow> 128 word" where
  "AESKEYGENA src imm = mm_aeskeygenassist_si128 src imm"

definition PCLMULQDQ :: "128 word \<Rightarrow> 128 word \<Rightarrow> 8 word \<Rightarrow> 128 word" where
  "PCLMULQDQ src dst imm = mm_clmulepi64_si128 dst src imm"

text \<open>
  The loops at labels 1 and 2 of the assembly of \<^verbatim>\<open>mbedtls_aesni_crypt_ecb\<close>: load
  the round key, do the round, advance the pointer \<^verbatim>\<open>%1\<close>, decrement the 32-bit
  counter \<^verbatim>\<open>%0\<close>, and jump back while it is not zero. The test comes after the body.
\<close>

function crypt_ecb_asm_loop ::
  "(128 word \<Rightarrow> 128 word \<Rightarrow> 128 word) \<Rightarrow> 32 word \<Rightarrow> 8 word list \<Rightarrow> int \<Rightarrow> 128 word
     \<Rightarrow> (int \<times> 128 word) option" where
  "crypt_ecb_asm_loop insn r0 rkbuf r1 xmm0 = do {
     xmm1 \<leftarrow> mm_loadu_si128 rkbuf r1;
     if r0 - 1 \<noteq> 0
     then crypt_ecb_asm_loop insn (r0 - 1) rkbuf (r1 + 16) (insn xmm1 xmm0)
     else Some (r1 + 16, insn xmm1 xmm0)
   }"
  by pat_completeness auto
termination
proof (relation "measure (\<lambda>(insn, r0, rkbuf, r1, xmm0). unat (r0 - 1))", goal_cases)
  case 1
  show ?case by simp
next
  case (2 insn r0 rkbuf r1 xmm0 xmm1)
  have "unat (r0 - 1 - 1) = unat (r0 - 1) - 1"
    using 2(2) by (rule unat_minus_one)
  moreover have "unat (r0 - 1) \<noteq> 0"
    using 2(2) by (simp add: unat_eq_0)
  ultimately show ?case by simp
qed

definition crypt_ecb_asm ::
  "mbedtls_aes_context \<Rightarrow> int \<Rightarrow> 8 word list \<Rightarrow> 8 word list \<Rightarrow> (int \<times> 8 word list) option" where
  "crypt_ecb_asm ctx mode input output = do {
     xmm0 \<leftarrow> mm_loadu_si128 input 0;
     xmm1 \<leftarrow> mm_loadu_si128 (aes_rk ctx) 0;
     let xmm0 = pxor xmm1 xmm0;
     let r1 = 16;
     let r0 = word_of_int (aes_nr ctx) - 1;
     xmm0 \<leftarrow> (if mode = 0
          then do {
            (r1, xmm0) \<leftarrow> crypt_ecb_asm_loop AESDEC r0 (aes_rk ctx) r1 xmm0;
            xmm1 \<leftarrow> mm_loadu_si128 (aes_rk ctx) r1;
            Some (AESDECLAST xmm1 xmm0)
          }
          else do {
            (r1, xmm0) \<leftarrow> crypt_ecb_asm_loop AESENC r0 (aes_rk ctx) r1 xmm0;
            xmm1 \<leftarrow> mm_loadu_si128 (aes_rk ctx) r1;
            Some (AESENCLAST xmm1 xmm0)
          });
     output \<leftarrow> mm_storeu_si128 output 0 xmm0;
     Some (0, output)
   }"

definition mbedtls_aesni_crypt_ecb ::
  "variant \<Rightarrow> mbedtls_aes_context \<Rightarrow> int \<Rightarrow> 8 word list \<Rightarrow> 8 word list
     \<Rightarrow> (int \<times> 8 word list) option" where
  "mbedtls_aesni_crypt_ecb v ctx mode input output =
     (case v of
        USE_MSVC_X64_INTRINSICS \<Rightarrow> crypt_ecb_intrinsics ctx mode input output
      | INLINE_ASM \<Rightarrow> crypt_ecb_asm ctx mode input output)"

subsection \<open>Compute decryption round keys from encryption round keys\<close>

text \<open>
  The loop of \<^verbatim>\<open>mbedtls_aesni_inverse_key\<close>; \<open>fk\<close> and \<open>ik\<close> are the offsets of the
  two pointers from \<^verbatim>\<open>fwdkey\<close> and \<^verbatim>\<open>invkey\<close>. Its body is a load, the instruction
  \<^verbatim>\<open>aesimc\<close> and a store in both variants of the source. The two buffers do not overlap.
\<close>

function inverse_key_loop ::
  "8 word list \<Rightarrow> 8 word list \<Rightarrow> int \<Rightarrow> int \<Rightarrow> (8 word list \<times> int \<times> int) option" where
  "inverse_key_loop invkey fwdkey fk ik =
     (if fk > 0
      then do {
        x \<leftarrow> mm_loadu_si128 fwdkey fk;
        invkey \<leftarrow> mm_storeu_si128 invkey ik (mm_aesimc_si128 x);
        inverse_key_loop invkey fwdkey (fk - 16) (ik + 16)
      }
      else Some (invkey, fk, ik))"
  by pat_completeness auto
termination
  by (relation "measure (\<lambda>(invkey, fwdkey, fk, ik). nat fk)") auto

definition mbedtls_aesni_inverse_key ::
  "8 word list \<Rightarrow> 8 word list \<Rightarrow> int \<Rightarrow> 8 word list option" where
  "mbedtls_aesni_inverse_key invkey fwdkey nr = do {
     let ik = 0;
     let fk = 16 * nr;
     invkey \<leftarrow> memcpy invkey ik fwdkey fk 16;
     (invkey, fk, ik) \<leftarrow> inverse_key_loop invkey fwdkey (fk - 16) (ik + 16);
     memcpy invkey ik fwdkey fk 16
   }"

subsection \<open>Key expansion, intrinsics variant\<close>

text \<open>
  A function of the source that updates \<^verbatim>\<open>__m128i\<close> variables through pointers returns
  their new values here.
\<close>

definition aes_key_128_assist :: "128 word \<Rightarrow> 128 word \<Rightarrow> 128 word" where
  "aes_key_128_assist temp1 kg =
     (let temp3 = mm_slli_si128 temp1 4;
          temp1 = mm_xor_si128 temp1 temp3;
          temp3 = mm_slli_si128 temp3 4;
          temp1 = mm_xor_si128 temp1 temp3;
          temp3 = mm_slli_si128 temp3 4;
          temp1 = mm_xor_si128 temp1 temp3;
          temp1 = mm_xor_si128 temp1 (mm_shuffle_epi32 kg 0xff)
      in temp1)"

definition aes_key_192_assist ::
  "128 word \<Rightarrow> 128 word \<Rightarrow> 128 word \<Rightarrow> 128 word \<times> 128 word" where
  "aes_key_192_assist temp1 temp3 kg =
     (let temp4 = mm_slli_si128 temp1 4;
          temp1 = mm_xor_si128 temp1 temp4;
          temp4 = mm_slli_si128 temp4 4;
          temp1 = mm_xor_si128 temp1 temp4;
          temp4 = mm_slli_si128 temp4 4;
          temp1 = mm_xor_si128 temp1 temp4;
          temp1 = mm_xor_si128 temp1 (mm_shuffle_epi32 kg 0x55);
          temp4 = mm_slli_si128 temp3 4;
          temp3 = mm_xor_si128 temp3 temp4;
          temp3 = mm_xor_si128 temp3 (mm_shuffle_epi32 temp1 0xff)
      in (temp1, temp3))"

definition aes_key_256_assist_1 :: "128 word \<Rightarrow> 128 word \<Rightarrow> 128 word" where
  "aes_key_256_assist_1 temp1 kg =
     (let temp4 = mm_slli_si128 temp1 4;
          temp1 = mm_xor_si128 temp1 temp4;
          temp4 = mm_slli_si128 temp4 4;
          temp1 = mm_xor_si128 temp1 temp4;
          temp4 = mm_slli_si128 temp4 4;
          temp1 = mm_xor_si128 temp1 temp4;
          temp1 = mm_xor_si128 temp1 (mm_shuffle_epi32 kg 0xff)
      in temp1)"

definition aes_key_256_assist_2 :: "128 word \<Rightarrow> 128 word \<Rightarrow> 128 word" where
  "aes_key_256_assist_2 temp1 temp3 =
     (let temp4 = mm_aeskeygenassist_si128 temp1 0x0;
          temp2 = mm_shuffle_epi32 temp4 0xaa;
          temp4 = mm_slli_si128 temp3 4;
          temp3 = mm_xor_si128 temp3 temp4;
          temp4 = mm_slli_si128 temp4 4;
          temp3 = mm_xor_si128 temp3 temp4;
          temp4 = mm_slli_si128 temp4 4;
          temp3 = mm_xor_si128 temp3 temp4;
          temp3 = mm_xor_si128 temp3 temp2
      in temp3)"

text \<open>
  The macro \<^verbatim>\<open>EXPAND_ROUND\<close> of the 128-bit case. \<^verbatim>\<open>(__m128i*)rk + index\<close> is the
  offset \<open>16 * index\<close> of the buffer.
\<close>

definition EXPAND_ROUND_128 ::
  "8 word list \<Rightarrow> int \<Rightarrow> 8 word \<Rightarrow> 128 word \<Rightarrow> (8 word list \<times> 128 word) option" where
  "EXPAND_ROUND_128 rk index rcon temp = do {
     rk \<leftarrow> mm_storeu_si128 rk (16 * index) temp;
     Some (rk, aes_key_128_assist temp (mm_aeskeygenassist_si128 temp rcon))
   }"

definition aesni_setkey_enc_128_intrinsics ::
  "8 word list \<Rightarrow> 8 word list \<Rightarrow> 8 word list option" where
  "aesni_setkey_enc_128_intrinsics rk key = do {
     temp \<leftarrow> mm_loadu_si128 key 0;
     (rk, temp) \<leftarrow> EXPAND_ROUND_128 rk 0 0x01 temp;
     (rk, temp) \<leftarrow> EXPAND_ROUND_128 rk 1 0x02 temp;
     (rk, temp) \<leftarrow> EXPAND_ROUND_128 rk 2 0x04 temp;
     (rk, temp) \<leftarrow> EXPAND_ROUND_128 rk 3 0x08 temp;
     (rk, temp) \<leftarrow> EXPAND_ROUND_128 rk 4 0x10 temp;
     (rk, temp) \<leftarrow> EXPAND_ROUND_128 rk 5 0x20 temp;
     (rk, temp) \<leftarrow> EXPAND_ROUND_128 rk 6 0x40 temp;
     (rk, temp) \<leftarrow> EXPAND_ROUND_128 rk 7 0x80 temp;
     (rk, temp) \<leftarrow> EXPAND_ROUND_128 rk 8 0x1B temp;
     (rk, temp) \<leftarrow> EXPAND_ROUND_128 rk 9 0x36 temp;
     mm_storeu_si128 rk (16 * 10) temp
   }"

text \<open>The macro \<^verbatim>\<open>EXPAND_ROUND\<close> of the 192-bit case.\<close>

definition EXPAND_ROUND_192 ::
  "8 word list \<Rightarrow> int \<Rightarrow> 8 word \<Rightarrow> 8 word \<Rightarrow> 128 word \<Rightarrow> 128 word
     \<Rightarrow> (8 word list \<times> 128 word \<times> 128 word) option" where
  "EXPAND_ROUND_192 rk index rcon1 rcon2 temp1 temp3 = do {
     rk \<leftarrow> mm_storeu_si128 rk (16 * (index + 0)) temp1;
     let temp2 = temp3;
     let (temp1, temp3) = aes_key_192_assist temp1 temp3 (mm_aeskeygenassist_si128 temp3 rcon1);
     rk \<leftarrow> mm_storeu_si128 rk (16 * (index + 1)) (mm_shuffle_epi64 temp2 temp1 0);
     rk \<leftarrow> mm_storeu_si128 rk (16 * (index + 2)) (mm_shuffle_epi64 temp1 temp3 1);
     let (temp1, temp3) = aes_key_192_assist temp1 temp3 (mm_aeskeygenassist_si128 temp3 rcon2);
     Some (rk, temp1, temp3)
   }"

text \<open>
  The second load reads the 16 bytes at \<^verbatim>\<open>key + 16\<close>, that is the bytes 16 to 31 of
  the key buffer.
\<close>

definition aesni_setkey_enc_192_intrinsics ::
  "8 word list \<Rightarrow> 8 word list \<Rightarrow> 8 word list option" where
  "aesni_setkey_enc_192_intrinsics rk key = do {
     temp1 \<leftarrow> mm_loadu_si128 key 0;
     temp3 \<leftarrow> mm_loadu_si128 key 16;
     (rk, temp1, temp3) \<leftarrow> EXPAND_ROUND_192 rk 0 0x01 0x02 temp1 temp3;
     (rk, temp1, temp3) \<leftarrow> EXPAND_ROUND_192 rk 3 0x04 0x08 temp1 temp3;
     (rk, temp1, temp3) \<leftarrow> EXPAND_ROUND_192 rk 6 0x10 0x20 temp1 temp3;
     (rk, temp1, temp3) \<leftarrow> EXPAND_ROUND_192 rk 9 0x40 0x80 temp1 temp3;
     mm_storeu_si128 rk (16 * 12) temp1
   }"

text \<open>The macros \<^verbatim>\<open>EXPAND_ROUND1\<close> and \<^verbatim>\<open>EXPAND_ROUND2\<close> of the 256-bit case.\<close>

definition EXPAND_ROUND1_256 ::
  "8 word list \<Rightarrow> int \<Rightarrow> 8 word \<Rightarrow> 128 word \<Rightarrow> 128 word \<Rightarrow> (8 word list \<times> 128 word) option" where
  "EXPAND_ROUND1_256 rk index rcon temp1 temp3 = do {
     let temp1 = aes_key_256_assist_1 temp1 (mm_aeskeygenassist_si128 temp3 rcon);
     rk \<leftarrow> mm_storeu_si128 rk (16 * index) temp1;
     Some (rk, temp1)
   }"

definition EXPAND_ROUND2_256 ::
  "8 word list \<Rightarrow> int \<Rightarrow> 128 word \<Rightarrow> 128 word \<Rightarrow> (8 word list \<times> 128 word) option" where
  "EXPAND_ROUND2_256 rk index temp1 temp3 = do {
     let temp3 = aes_key_256_assist_2 temp1 temp3;
     rk \<leftarrow> mm_storeu_si128 rk (16 * index) temp3;
     Some (rk, temp3)
   }"

definition aesni_setkey_enc_256_intrinsics ::
  "8 word list \<Rightarrow> 8 word list \<Rightarrow> 8 word list option" where
  "aesni_setkey_enc_256_intrinsics rk key = do {
     temp1 \<leftarrow> mm_loadu_si128 key 0;
     temp3 \<leftarrow> mm_loadu_si128 key 16;
     rk \<leftarrow> mm_storeu_si128 rk (16 * 0) temp1;
     rk \<leftarrow> mm_storeu_si128 rk (16 * 1) temp3;
     (rk, temp1) \<leftarrow> EXPAND_ROUND1_256 rk 2 0x01 temp1 temp3;
     (rk, temp3) \<leftarrow> EXPAND_ROUND2_256 rk 3 temp1 temp3;
     (rk, temp1) \<leftarrow> EXPAND_ROUND1_256 rk 4 0x02 temp1 temp3;
     (rk, temp3) \<leftarrow> EXPAND_ROUND2_256 rk 5 temp1 temp3;
     (rk, temp1) \<leftarrow> EXPAND_ROUND1_256 rk 6 0x04 temp1 temp3;
     (rk, temp3) \<leftarrow> EXPAND_ROUND2_256 rk 7 temp1 temp3;
     (rk, temp1) \<leftarrow> EXPAND_ROUND1_256 rk 8 0x08 temp1 temp3;
     (rk, temp3) \<leftarrow> EXPAND_ROUND2_256 rk 9 temp1 temp3;
     (rk, temp1) \<leftarrow> EXPAND_ROUND1_256 rk 10 0x10 temp1 temp3;
     (rk, temp3) \<leftarrow> EXPAND_ROUND2_256 rk 11 temp1 temp3;
     (rk, temp1) \<leftarrow> EXPAND_ROUND1_256 rk 12 0x20 temp1 temp3;
     (rk, temp3) \<leftarrow> EXPAND_ROUND2_256 rk 13 temp1 temp3;
     (rk, temp1) \<leftarrow> EXPAND_ROUND1_256 rk 14 0x40 temp1 temp3;
     Some rk
   }"

subsection \<open>Key expansion, assembly variant\<close>

text \<open>
  Each assembly block has an auxiliary routine at label 1, entered by \<^verbatim>\<open>call 1b\<close>
  after an \<^verbatim>\<open>aeskeygenassist\<close>. The routine is a function of the registers it reads
  and returns those it leaves behind; \<open>r0\<close> is the offset of the pointer \<^verbatim>\<open>%0\<close> from
  the start of the round-key buffer.
\<close>

definition setkey_enc_128_asm_1 ::
  "8 word list \<Rightarrow> int \<Rightarrow> 128 word \<Rightarrow> 128 word
     \<Rightarrow> (8 word list \<times> int \<times> 128 word \<times> 128 word) option" where
  "setkey_enc_128_asm_1 rk r0 xmm0 xmm1 = do {
     let xmm1 = pshufd 0xff xmm1;
     let xmm1 = pxor xmm0 xmm1;
     let xmm0 = pslldq 4 xmm0;
     let xmm1 = pxor xmm0 xmm1;
     let xmm0 = pslldq 4 xmm0;
     let xmm1 = pxor xmm0 xmm1;
     let xmm0 = pslldq 4 xmm0;
     let xmm0 = pxor xmm1 xmm0;
     let r0 = r0 + 16;
     rk \<leftarrow> mm_storeu_si128 rk r0 xmm0;
     Some (rk, r0, xmm0, xmm1)
   }"

definition aesni_setkey_enc_128_asm ::
  "8 word list \<Rightarrow> 8 word list \<Rightarrow> 8 word list option" where
  "aesni_setkey_enc_128_asm rk key = do {
     xmm0 \<leftarrow> mm_loadu_si128 key 0;
     let r0 = 0;
     rk \<leftarrow> mm_storeu_si128 rk r0 xmm0;
     let xmm1 = AESKEYGENA xmm0 0x01;
     (rk, r0, xmm0, xmm1) \<leftarrow> setkey_enc_128_asm_1 rk r0 xmm0 xmm1;
     let xmm1 = AESKEYGENA xmm0 0x02;
     (rk, r0, xmm0, xmm1) \<leftarrow> setkey_enc_128_asm_1 rk r0 xmm0 xmm1;
     let xmm1 = AESKEYGENA xmm0 0x04;
     (rk, r0, xmm0, xmm1) \<leftarrow> setkey_enc_128_asm_1 rk r0 xmm0 xmm1;
     let xmm1 = AESKEYGENA xmm0 0x08;
     (rk, r0, xmm0, xmm1) \<leftarrow> setkey_enc_128_asm_1 rk r0 xmm0 xmm1;
     let xmm1 = AESKEYGENA xmm0 0x10;
     (rk, r0, xmm0, xmm1) \<leftarrow> setkey_enc_128_asm_1 rk r0 xmm0 xmm1;
     let xmm1 = AESKEYGENA xmm0 0x20;
     (rk, r0, xmm0, xmm1) \<leftarrow> setkey_enc_128_asm_1 rk r0 xmm0 xmm1;
     let xmm1 = AESKEYGENA xmm0 0x40;
     (rk, r0, xmm0, xmm1) \<leftarrow> setkey_enc_128_asm_1 rk r0 xmm0 xmm1;
     let xmm1 = AESKEYGENA xmm0 0x80;
     (rk, r0, xmm0, xmm1) \<leftarrow> setkey_enc_128_asm_1 rk r0 xmm0 xmm1;
     let xmm1 = AESKEYGENA xmm0 0x1B;
     (rk, r0, xmm0, xmm1) \<leftarrow> setkey_enc_128_asm_1 rk r0 xmm0 xmm1;
     let xmm1 = AESKEYGENA xmm0 0x36;
     (rk, r0, xmm0, xmm1) \<leftarrow> setkey_enc_128_asm_1 rk r0 xmm0 xmm1;
     Some rk
   }"

definition setkey_enc_192_asm_1 ::
  "8 word list \<Rightarrow> int \<Rightarrow> 128 word \<Rightarrow> 128 word \<Rightarrow> 128 word
     \<Rightarrow> (8 word list \<times> int \<times> 128 word \<times> 128 word \<times> 128 word) option" where
  "setkey_enc_192_asm_1 rk r0 xmm0 xmm1 xmm2 = do {
     let xmm2 = pshufd 0x55 xmm2;
     let xmm2 = pxor xmm0 xmm2;
     let xmm0 = pslldq 4 xmm0;
     let xmm2 = pxor xmm0 xmm2;
     let xmm0 = pslldq 4 xmm0;
     let xmm2 = pxor xmm0 xmm2;
     let xmm0 = pslldq 4 xmm0;
     let xmm0 = pxor xmm2 xmm0;
     rk \<leftarrow> mm_storeu_si128 rk r0 xmm0;
     let r0 = r0 + 16;
     let xmm2 = pshufd 0xff xmm0;
     let xmm2 = pxor xmm1 xmm2;
     let xmm1 = pslldq 4 xmm1;
     let xmm1 = pxor xmm2 xmm1;
     rk \<leftarrow> movq_store rk r0 xmm1;
     let r0 = r0 + 8;
     Some (rk, r0, xmm0, xmm1, xmm2)
   }"

definition aesni_setkey_enc_192_asm ::
  "8 word list \<Rightarrow> 8 word list \<Rightarrow> 8 word list option" where
  "aesni_setkey_enc_192_asm rk key = do {
     xmm0 \<leftarrow> mm_loadu_si128 key 0;
     let r0 = 0;
     rk \<leftarrow> mm_storeu_si128 rk r0 xmm0;
     let r0 = r0 + 16;
     xmm1 \<leftarrow> movq_load key 16;
     rk \<leftarrow> movq_store rk r0 xmm1;
     let r0 = r0 + 8;
     let xmm2 = AESKEYGENA xmm1 0x01;
     (rk, r0, xmm0, xmm1, xmm2) \<leftarrow> setkey_enc_192_asm_1 rk r0 xmm0 xmm1 xmm2;
     let xmm2 = AESKEYGENA xmm1 0x02;
     (rk, r0, xmm0, xmm1, xmm2) \<leftarrow> setkey_enc_192_asm_1 rk r0 xmm0 xmm1 xmm2;
     let xmm2 = AESKEYGENA xmm1 0x04;
     (rk, r0, xmm0, xmm1, xmm2) \<leftarrow> setkey_enc_192_asm_1 rk r0 xmm0 xmm1 xmm2;
     let xmm2 = AESKEYGENA xmm1 0x08;
     (rk, r0, xmm0, xmm1, xmm2) \<leftarrow> setkey_enc_192_asm_1 rk r0 xmm0 xmm1 xmm2;
     let xmm2 = AESKEYGENA xmm1 0x10;
     (rk, r0, xmm0, xmm1, xmm2) \<leftarrow> setkey_enc_192_asm_1 rk r0 xmm0 xmm1 xmm2;
     let xmm2 = AESKEYGENA xmm1 0x20;
     (rk, r0, xmm0, xmm1, xmm2) \<leftarrow> setkey_enc_192_asm_1 rk r0 xmm0 xmm1 xmm2;
     let xmm2 = AESKEYGENA xmm1 0x40;
     (rk, r0, xmm0, xmm1, xmm2) \<leftarrow> setkey_enc_192_asm_1 rk r0 xmm0 xmm1 xmm2;
     let xmm2 = AESKEYGENA xmm1 0x80;
     (rk, r0, xmm0, xmm1, xmm2) \<leftarrow> setkey_enc_192_asm_1 rk r0 xmm0 xmm1 xmm2;
     Some rk
   }"

definition setkey_enc_256_asm_1 ::
  "8 word list \<Rightarrow> int \<Rightarrow> 128 word \<Rightarrow> 128 word \<Rightarrow> 128 word
     \<Rightarrow> (8 word list \<times> int \<times> 128 word \<times> 128 word \<times> 128 word) option" where
  "setkey_enc_256_asm_1 rk r0 xmm0 xmm1 xmm2 = do {
     let xmm2 = pshufd 0xff xmm2;
     let xmm2 = pxor xmm0 xmm2;
     let xmm0 = pslldq 4 xmm0;
     let xmm2 = pxor xmm0 xmm2;
     let xmm0 = pslldq 4 xmm0;
     let xmm2 = pxor xmm0 xmm2;
     let xmm0 = pslldq 4 xmm0;
     let xmm0 = pxor xmm2 xmm0;
     let r0 = r0 + 16;
     rk \<leftarrow> mm_storeu_si128 rk r0 xmm0;
     let xmm2 = AESKEYGENA xmm0 0x00;
     let xmm2 = pshufd 0xaa xmm2;
     let xmm2 = pxor xmm1 xmm2;
     let xmm1 = pslldq 4 xmm1;
     let xmm2 = pxor xmm1 xmm2;
     let xmm1 = pslldq 4 xmm1;
     let xmm2 = pxor xmm1 xmm2;
     let xmm1 = pslldq 4 xmm1;
     let xmm1 = pxor xmm2 xmm1;
     let r0 = r0 + 16;
     rk \<leftarrow> mm_storeu_si128 rk r0 xmm1;
     Some (rk, r0, xmm0, xmm1, xmm2)
   }"

definition aesni_setkey_enc_256_asm ::
  "8 word list \<Rightarrow> 8 word list \<Rightarrow> 8 word list option" where
  "aesni_setkey_enc_256_asm rk key = do {
     xmm0 \<leftarrow> mm_loadu_si128 key 0;
     let r0 = 0;
     rk \<leftarrow> mm_storeu_si128 rk r0 xmm0;
     let r0 = r0 + 16;
     xmm1 \<leftarrow> mm_loadu_si128 key 16;
     rk \<leftarrow> mm_storeu_si128 rk r0 xmm1;
     let xmm2 = AESKEYGENA xmm1 0x01;
     (rk, r0, xmm0, xmm1, xmm2) \<leftarrow> setkey_enc_256_asm_1 rk r0 xmm0 xmm1 xmm2;
     let xmm2 = AESKEYGENA xmm1 0x02;
     (rk, r0, xmm0, xmm1, xmm2) \<leftarrow> setkey_enc_256_asm_1 rk r0 xmm0 xmm1 xmm2;
     let xmm2 = AESKEYGENA xmm1 0x04;
     (rk, r0, xmm0, xmm1, xmm2) \<leftarrow> setkey_enc_256_asm_1 rk r0 xmm0 xmm1 xmm2;
     let xmm2 = AESKEYGENA xmm1 0x08;
     (rk, r0, xmm0, xmm1, xmm2) \<leftarrow> setkey_enc_256_asm_1 rk r0 xmm0 xmm1 xmm2;
     let xmm2 = AESKEYGENA xmm1 0x10;
     (rk, r0, xmm0, xmm1, xmm2) \<leftarrow> setkey_enc_256_asm_1 rk r0 xmm0 xmm1 xmm2;
     let xmm2 = AESKEYGENA xmm1 0x20;
     (rk, r0, xmm0, xmm1, xmm2) \<leftarrow> setkey_enc_256_asm_1 rk r0 xmm0 xmm1 xmm2;
     let xmm2 = AESKEYGENA xmm1 0x40;
     (rk, r0, xmm0, xmm1, xmm2) \<leftarrow> setkey_enc_256_asm_1 rk r0 xmm0 xmm1 xmm2;
     Some rk
   }"

subsection \<open>Key expansion, wrapper\<close>

definition aesni_setkey_enc_128 ::
  "variant \<Rightarrow> 8 word list \<Rightarrow> 8 word list \<Rightarrow> 8 word list option" where
  "aesni_setkey_enc_128 v rk key =
     (case v of
        USE_MSVC_X64_INTRINSICS \<Rightarrow> aesni_setkey_enc_128_intrinsics rk key
      | INLINE_ASM \<Rightarrow> aesni_setkey_enc_128_asm rk key)"

definition aesni_setkey_enc_192 ::
  "variant \<Rightarrow> 8 word list \<Rightarrow> 8 word list \<Rightarrow> 8 word list option" where
  "aesni_setkey_enc_192 v rk key =
     (case v of
        USE_MSVC_X64_INTRINSICS \<Rightarrow> aesni_setkey_enc_192_intrinsics rk key
      | INLINE_ASM \<Rightarrow> aesni_setkey_enc_192_asm rk key)"

definition aesni_setkey_enc_256 ::
  "variant \<Rightarrow> 8 word list \<Rightarrow> 8 word list \<Rightarrow> 8 word list option" where
  "aesni_setkey_enc_256 v rk key =
     (case v of
        USE_MSVC_X64_INTRINSICS \<Rightarrow> aesni_setkey_enc_256_intrinsics rk key
      | INLINE_ASM \<Rightarrow> aesni_setkey_enc_256_asm rk key)"

text \<open>
  The error code is a macro of \<^verbatim>\<open>mbedtls/aes.h\<close>, which is not among the sources; its
  value there is \<open>-0x0020\<close>. The specification calls it \<^verbatim>\<open>InvalidKeyLength\<close>.
\<close>

definition MBEDTLS_ERR_AES_INVALID_KEY_LENGTH :: int where
  "MBEDTLS_ERR_AES_INVALID_KEY_LENGTH = - 0x0020"

text \<open>
  The result is the returned \<^verbatim>\<open>int\<close> and the round-key buffer after the call.
\<close>

definition mbedtls_aesni_setkey_enc ::
  "variant \<Rightarrow> 8 word list \<Rightarrow> 8 word list \<Rightarrow> nat \<Rightarrow> (int \<times> 8 word list) option" where
  "mbedtls_aesni_setkey_enc v rk key bits =
     (if bits = 128 then do { rk \<leftarrow> aesni_setkey_enc_128 v rk key; Some (0, rk) }
      else if bits = 192 then do { rk \<leftarrow> aesni_setkey_enc_192 v rk key; Some (0, rk) }
      else if bits = 256 then do { rk \<leftarrow> aesni_setkey_enc_256 v rk key; Some (0, rk) }
      else Some (MBEDTLS_ERR_AES_INVALID_KEY_LENGTH, rk))"

subsection \<open>GCM multiplication: c = a times b in GF(2^128)\<close>

text \<open>The helpers of the intrinsics variant. The two results of a helper are a pair.\<close>

definition clmul256 :: "128 word \<Rightarrow> 128 word \<Rightarrow> 128 word \<times> 128 word" where
  "clmul256 a b =
     (let c = mm_clmulepi64_si128 a b 0x00;
          d = mm_clmulepi64_si128 a b 0x11;
          e = mm_clmulepi64_si128 a b 0x10;
          f = mm_clmulepi64_si128 a b 0x01;
          ef = mm_xor_si128 e f;
          r0 = mm_xor_si128 c (mm_slli_si128 ef 8);
          r1 = mm_xor_si128 d (mm_srli_si128 ef 8)
      in (r0, r1))"

definition sll256 :: "128 word \<Rightarrow> 128 word \<Rightarrow> 128 word \<times> 128 word" where
  "sll256 a0 a1 =
     (let l0 = mm_slli_epi64 a0 1;
          l1 = mm_slli_epi64 a1 1;
          r0 = mm_srli_epi64 a0 63;
          r1 = mm_srli_epi64 a1 63;
          s0 = mm_or_si128 l0 (mm_slli_si128 r0 8);
          s1 = mm_or_si128 (mm_or_si128 l1 (mm_srli_si128 r0 8)) (mm_slli_si128 r1 8)
      in (s0, s1))"

definition reducemod128 :: "128 word \<Rightarrow> 128 word \<Rightarrow> 128 word" where
  "reducemod128 x10 x32 =
     (let a = mm_slli_epi64 x10 63;
          b = mm_slli_epi64 x10 62;
          c = mm_slli_epi64 x10 57;
          dx0 = mm_xor_si128 x10 (mm_slli_si128 (mm_xor_si128 (mm_xor_si128 a b) c) 8);
          e = mm_or_si128 (mm_srli_epi64 dx0 1) (mm_srli_si128 (mm_slli_epi64 dx0 63) 8);
          f = mm_or_si128 (mm_srli_epi64 dx0 2) (mm_srli_si128 (mm_slli_epi64 dx0 62) 8);
          g = mm_or_si128 (mm_srli_epi64 dx0 7) (mm_srli_si128 (mm_slli_epi64 dx0 57) 8);
          h = mm_xor_si128 dx0 (mm_xor_si128 e (mm_xor_si128 f g))
      in mm_xor_si128 x32 h)"

text \<open>
  \<^verbatim>\<open>*((unsigned __int64*)a + i)\<close> reads or writes the eight bytes at offset \<open>8 * i\<close>.
\<close>

definition load_uint64 :: "8 word list \<Rightarrow> int \<Rightarrow> 64 word option" where
  "load_uint64 mem off = map_option le_word (load_bytes mem off 8)"

definition store_uint64 :: "8 word list \<Rightarrow> int \<Rightarrow> 64 word \<Rightarrow> 8 word list option" where
  "store_uint64 mem off x = store_bytes mem off (le_bytes 8 x)"

text \<open>
  The result is the buffer \<^verbatim>\<open>c\<close> after the call. Both inputs are read completely
  before \<^verbatim>\<open>c\<close> is written, so \<^verbatim>\<open>c\<close> may be one of them.
\<close>

definition gcm_mult_intrinsics ::
  "8 word list \<Rightarrow> 8 word list \<Rightarrow> 8 word list \<Rightarrow> 8 word list option" where
  "gcm_mult_intrinsics c a b = do {
     a0 \<leftarrow> load_uint64 a (8 * 0);
     a1 \<leftarrow> load_uint64 a (8 * 1);
     let xa = mm_set_epi64x (byteswap_uint64 a0) (byteswap_uint64 a1);
     b0 \<leftarrow> load_uint64 b (8 * 0);
     b1 \<leftarrow> load_uint64 b (8 * 1);
     let xb = mm_set_epi64x (byteswap_uint64 b0) (byteswap_uint64 b1);
     let (m0, m1) = clmul256 xa xb;
     let (x10, x32) = sll256 m0 m1;
     let r = reducemod128 x10 x32;
     c \<leftarrow> store_uint64 c (8 * 0) (byteswap_uint64 (m128i_u64 r 1));
     store_uint64 c (8 * 1) (byteswap_uint64 (m128i_u64 r 0))
   }"

text \<open>
  The loop \<^verbatim>\<open>for( i = 0; i < 16; i++ ) aa[i] = a[15 - i]\<close> of the assembly variant.
\<close>

definition byte_reverse_16 :: "8 word list \<Rightarrow> 8 word list option" where
  "byte_reverse_16 a =
     (if in_bounds a 0 16 then Some (map (\<lambda>i. a ! (15 - i)) [0..<16]) else None)"

text \<open>
  The assembly block between the two byte reversals, one instruction a line, in the
  three parts its comments delimit. The carry-less multiplication takes \<^verbatim>\<open>xmm0\<close> and
  \<^verbatim>\<open>xmm1\<close> as loaded and leaves the product in \<^verbatim>\<open>xmm2:xmm1\<close>; the shift by one
  bit works on \<^verbatim>\<open>xmm2:xmm1\<close>; the reduction leaves the result in \<^verbatim>\<open>xmm0\<close>. No other
  register is read by a part before it is written there.
\<close>

definition gcm_mult_asm_clmul :: "128 word \<Rightarrow> 128 word \<Rightarrow> 128 word \<times> 128 word" where
  "gcm_mult_asm_clmul xmm0 xmm1 =
     (let xmm2 = xmm1;
          xmm3 = xmm1;
          xmm4 = xmm1;
          xmm1 = PCLMULQDQ xmm0 xmm1 0x00;
          xmm2 = PCLMULQDQ xmm0 xmm2 0x11;
          xmm3 = PCLMULQDQ xmm0 xmm3 0x10;
          xmm4 = PCLMULQDQ xmm0 xmm4 0x01;
          xmm4 = pxor xmm3 xmm4;
          xmm3 = xmm4;
          xmm4 = psrldq 8 xmm4;
          xmm3 = pslldq 8 xmm3;
          xmm2 = pxor xmm4 xmm2;
          xmm1 = pxor xmm3 xmm1
      in (xmm1, xmm2))"

definition gcm_mult_asm_shift :: "128 word \<Rightarrow> 128 word \<Rightarrow> 128 word \<times> 128 word" where
  "gcm_mult_asm_shift xmm1 xmm2 =
     (let xmm3 = xmm1;
          xmm4 = xmm2;
          xmm1 = psllq 1 xmm1;
          xmm2 = psllq 1 xmm2;
          xmm3 = psrlq 63 xmm3;
          xmm4 = psrlq 63 xmm4;
          xmm5 = xmm3;
          xmm3 = pslldq 8 xmm3;
          xmm4 = pslldq 8 xmm4;
          xmm5 = psrldq 8 xmm5;
          xmm1 = por xmm3 xmm1;
          xmm2 = por xmm4 xmm2;
          xmm2 = por xmm5 xmm2
      in (xmm1, xmm2))"

definition gcm_mult_asm_reduce :: "128 word \<Rightarrow> 128 word \<Rightarrow> 128 word" where
  "gcm_mult_asm_reduce xmm1 xmm2 =
     (let xmm3 = xmm1;
          xmm4 = xmm1;
          xmm5 = xmm1;
          xmm3 = psllq 63 xmm3;
          xmm4 = psllq 62 xmm4;
          xmm5 = psllq 57 xmm5;
          xmm3 = pxor xmm4 xmm3;
          xmm3 = pxor xmm5 xmm3;
          xmm3 = pslldq 8 xmm3;
          xmm1 = pxor xmm3 xmm1;
          xmm0 = xmm1;
          xmm4 = xmm1;
          xmm5 = xmm1;
          xmm0 = psrlq 1 xmm0;
          xmm4 = psrlq 2 xmm4;
          xmm5 = psrlq 7 xmm5;
          xmm0 = pxor xmm4 xmm0;
          xmm0 = pxor xmm5 xmm0;
          xmm3 = xmm1;
          xmm4 = xmm1;
          xmm5 = xmm1;
          xmm3 = psllq 63 xmm3;
          xmm4 = psllq 62 xmm4;
          xmm5 = psllq 57 xmm5;
          xmm3 = pxor xmm4 xmm3;
          xmm3 = pxor xmm5 xmm3;
          xmm3 = psrldq 8 xmm3;
          xmm0 = pxor xmm3 xmm0;
          xmm0 = pxor xmm1 xmm0;
          xmm0 = pxor xmm2 xmm0
      in xmm0)"

definition gcm_mult_asm_block :: "128 word \<Rightarrow> 128 word \<Rightarrow> 128 word" where
  "gcm_mult_asm_block xmm0 xmm1 =
     (let (xmm1, xmm2) = gcm_mult_asm_clmul xmm0 xmm1;
          (xmm1, xmm2) = gcm_mult_asm_shift xmm1 xmm2
      in gcm_mult_asm_reduce xmm1 xmm2)"

definition gcm_mult_asm ::
  "8 word list \<Rightarrow> 8 word list \<Rightarrow> 8 word list \<Rightarrow> 8 word list option" where
  "gcm_mult_asm c a b = do {
     aa \<leftarrow> byte_reverse_16 a;
     bb \<leftarrow> byte_reverse_16 b;
     xmm0 \<leftarrow> mm_loadu_si128 aa 0;
     xmm1 \<leftarrow> mm_loadu_si128 bb 0;
     let xmm0 = gcm_mult_asm_block xmm0 xmm1;
     let cc = le_bytes 16 xmm0;
     cr \<leftarrow> byte_reverse_16 cc;
     store_bytes c 0 cr
   }"

definition mbedtls_aesni_gcm_mult ::
  "variant \<Rightarrow> 8 word list \<Rightarrow> 8 word list \<Rightarrow> 8 word list \<Rightarrow> 8 word list option" where
  "mbedtls_aesni_gcm_mult v c a b =
     (case v of
        USE_MSVC_X64_INTRINSICS \<Rightarrow> gcm_mult_intrinsics c a b
      | INLINE_ASM \<Rightarrow> gcm_mult_asm c a b)"

section \<open>Reference definitions\<close>

text \<open>
  The definitions of this section are not translations of the source. They state what
  the claims compare the source with: the operations as the specification words them,
  and the closed forms the proofs go through.
\<close>

subsection \<open>Round keys of a buffer\<close>

text \<open>
  Round key \<open>i\<close> of a round-key buffer is its \<open>i\<close>-th block of 16 bytes, as bytes
  (\<open>round_key_bytes\<close>) and as the 128-bit value an unaligned load yields (\<open>round_key\<close>).
\<close>

definition round_key_bytes :: "8 word list \<Rightarrow> nat \<Rightarrow> 8 word list" where
  "round_key_bytes buf i = take 16 (drop (16 * i) buf)"

definition round_key :: "8 word list \<Rightarrow> nat \<Rightarrow> 128 word" where
  "round_key buf i = le_word (take 16 (drop (16 * i) buf))"

subsection \<open>The block cipher of the specification (section 4.2)\<close>

text \<open>
  Written from the specification: the accumulator starts as the input XOR round key 0;
  round keys 1 to \<open>rounds - 1\<close> are applied in order with the round transform (byte
  substitution, row shift, column mix, key addition for encryption, the inverse
  transformations for decryption); round key \<open>rounds\<close> is applied with the final-round
  transform, which has no column mix. Blocks and round keys are lists of 16 bytes.
\<close>

datatype direction = Encrypt | Decrypt

definition AddRoundKey :: "8 word list \<Rightarrow> 8 word list \<Rightarrow> 8 word list" where
  "AddRoundKey s k = map2 (XOR) s k"

definition round_transform :: "direction \<Rightarrow> 8 word list \<Rightarrow> 8 word list \<Rightarrow> 8 word list" where
  "round_transform d s k =
     (case d of
        Encrypt \<Rightarrow> AddRoundKey (MixColumns (ShiftRows (SubBytes s))) k
      | Decrypt \<Rightarrow> AddRoundKey (InvMixColumns (InvShiftRows (InvSubBytes s))) k)"

definition final_round_transform :: "direction \<Rightarrow> 8 word list \<Rightarrow> 8 word list \<Rightarrow> 8 word list" where
  "final_round_transform d s k =
     (case d of
        Encrypt \<Rightarrow> AddRoundKey (ShiftRows (SubBytes s)) k
      | Decrypt \<Rightarrow> AddRoundKey (InvShiftRows (InvSubBytes s)) k)"

definition cryptBlock ::
  "direction \<Rightarrow> (nat \<Rightarrow> 8 word list) \<Rightarrow> nat \<Rightarrow> 8 word list \<Rightarrow> 8 word list" where
  "cryptBlock d roundKeys rounds input =
     (let accumulator = AddRoundKey input (roundKeys 0);
          accumulator = foldl (\<lambda>acc i. round_transform d acc (roundKeys i)) accumulator [1..<rounds]
      in final_round_transform d accumulator (roundKeys rounds))"

text \<open>The mode argument that selects a direction.\<close>

definition mode_of :: "direction \<Rightarrow> int" where
  "mode_of d = (case d of Encrypt \<Rightarrow> MBEDTLS_AES_ENCRYPT | Decrypt \<Rightarrow> MBEDTLS_AES_DECRYPT)"

text \<open>
  The same computation on 128-bit values with the instructions of the source, which
  both variants of \<^verbatim>\<open>mbedtls_aesni_crypt_ecb\<close> are shown to perform.
\<close>

definition cipher_round :: "direction \<Rightarrow> 128 word \<Rightarrow> 128 word \<Rightarrow> 128 word" where
  "cipher_round d = (case d of Encrypt \<Rightarrow> mm_aesenc_si128 | Decrypt \<Rightarrow> mm_aesdec_si128)"

definition cipher_last :: "direction \<Rightarrow> 128 word \<Rightarrow> 128 word \<Rightarrow> 128 word" where
  "cipher_last d = (case d of Encrypt \<Rightarrow> mm_aesenclast_si128 | Decrypt \<Rightarrow> mm_aesdeclast_si128)"

definition cipher128 :: "direction \<Rightarrow> 8 word list \<Rightarrow> nat \<Rightarrow> 128 word \<Rightarrow> 128 word" where
  "cipher128 d buf n x =
     cipher_last d (foldl (cipher_round d) (x XOR round_key buf 0) (map (round_key buf) [1..<n]))
       (round_key buf n)"

subsection \<open>The decryption schedule of the specification (section 4.4)\<close>

text \<open>
  Written from the specification: decryption round key 0 is forward round key
  \<open>rounds\<close>, decryption round key \<open>rounds\<close> is forward round key 0, and every other
  decryption round key \<open>i\<close> is Inverse-MixColumns of forward round key \<open>rounds - i\<close>.
\<close>

definition deriveDecryptionSchedule ::
  "(nat \<Rightarrow> 8 word list) \<Rightarrow> nat \<Rightarrow> nat \<Rightarrow> 8 word list" where
  "deriveDecryptionSchedule forwardKeys rounds i =
     (if i = 0 then forwardKeys rounds
      else if i = rounds then forwardKeys 0
      else InvMixColumns (forwardKeys (rounds - i)))"

subsection \<open>Key expansion as an iteration over the round constants (section 4.3)\<close>

text \<open>
  The round constants of the specification, and an expansion that consumes a list of
  constants one per step: each step maps the current state to the next, and the result
  lists every state, the initial one first.
\<close>

definition round_constants :: "8 word list" where
  "round_constants = [0x01, 0x02, 0x04, 0x08, 0x10, 0x20, 0x40, 0x80, 0x1B, 0x36]"

fun iterate_keys :: "('c \<Rightarrow> 's \<Rightarrow> 's) \<Rightarrow> 'c list \<Rightarrow> 's \<Rightarrow> 's list" where
  "iterate_keys step [] s = [s]"
| "iterate_keys step (c # cs) s = s # iterate_keys step cs (step c s)"

text \<open>
  One expansion step of each key size, from the helper functions of the source. The
  state is one 128-bit value for 128-bit keys; for 192-bit keys a 128-bit value and a
  second one whose low 64 bits count; for 256-bit keys two 128-bit values.
\<close>

definition expand_128 :: "8 word \<Rightarrow> 128 word \<Rightarrow> 128 word" where
  "expand_128 rcon temp = aes_key_128_assist temp (mm_aeskeygenassist_si128 temp rcon)"

definition expand_192 :: "8 word \<Rightarrow> 128 word \<times> 128 word \<Rightarrow> 128 word \<times> 128 word" where
  "expand_192 rcon s =
     aes_key_192_assist (fst s) (snd s) (mm_aeskeygenassist_si128 (snd s) rcon)"

definition expand_256 :: "8 word \<Rightarrow> 128 word \<times> 128 word \<Rightarrow> 128 word \<times> 128 word" where
  "expand_256 rcon s =
     (let temp1 = aes_key_256_assist_1 (fst s) (mm_aeskeygenassist_si128 (snd s) rcon)
      in (temp1, aes_key_256_assist_2 temp1 (snd s)))"

text \<open>The bytes a state contributes to the round-key buffer: 24 and 32 bytes.\<close>

definition key_bytes_192 :: "128 word \<times> 128 word \<Rightarrow> 8 word list" where
  "key_bytes_192 s = le_bytes 16 (fst s) @ le_bytes 8 (snd s)"

definition key_bytes_256 :: "128 word \<times> 128 word \<Rightarrow> 8 word list" where
  "key_bytes_256 s = le_bytes 16 (fst s) @ le_bytes 16 (snd s)"

subsection \<open>A check of the S-box tables\<close>

text \<open>
  \<open>sbox_inverse_upto n b\<close> checks that the inverse table undoes the S-box on the \<open>n\<close>
  bytes from \<open>b\<close> on.
\<close>

fun sbox_inverse_upto :: "nat \<Rightarrow> 8 word \<Rightarrow> bool" where
  "sbox_inverse_upto 0 b = True"
| "sbox_inverse_upto (Suc n) b = (InvSubByte (SubByte b) = b \<and> sbox_inverse_upto n (b + 1))"


subsection \<open>The multiplication of the specification (section 4.5)\<close>

text \<open>
  The 16 input bytes read as one 128-bit value, most significant byte first, and the
  product of two such values as the steps 2 to 4 of the specification compute it: the
  256-bit carry-less product, the shift by one bit, the reduction.
\<close>

definition be_word_16 :: "8 word list \<Rightarrow> 128 word" where
  "be_word_16 a = le_word (rev (take 16 a))"

definition gf128_multiply :: "128 word \<Rightarrow> 128 word \<Rightarrow> 128 word" where
  "gf128_multiply xa xb =
     (let (m0, m1) = clmul256 xa xb;
          (x10, x32) = sll256 m0 m1
      in reducemod128 x10 x32)"

text \<open>
  Written from the specification: the operation \<^verbatim>\<open>multiply\<close> byte-reverses both inputs
  from their big-endian representation, multiplies, and byte-reverses the result back.
\<close>

definition multiply :: "8 word list \<Rightarrow> 8 word list \<Rightarrow> 8 word list" where
  "multiply a b = rev (le_bytes 16 (gf128_multiply (be_word_16 a) (be_word_16 b)))"

text \<open>
  The index set of the carry-less product: the positions \<open>i\<close> below \<open>m\<close> at which
  bit \<open>i\<close> of \<open>a\<close> meets bit \<open>n - i\<close> of \<open>b\<close>.
\<close>

definition clmul_set :: "64 word \<Rightarrow> 64 word \<Rightarrow> nat \<Rightarrow> nat \<Rightarrow> nat set" where
  "clmul_set a b m n = {i. i < m \<and> bit a i \<and> i \<le> n \<and> bit b (n - i)}"

section \<open>Properties\<close>

subsection \<open>Auxiliary facts\<close>

lemma length_le_bytes [simp]: "length (le_bytes n x) = n"
  by (simp add: le_bytes_def)

lemma nth_le_bytes: "i < n \<Longrightarrow> le_bytes n x ! i = ucast (drop_bit (8 * i) x)"
  by (simp add: le_bytes_def)

lemma bit_le_word:
  "bit (le_word bs :: 'a::len word) n \<longleftrightarrow>
     n < LENGTH('a) \<and> n div 8 < length bs \<and> bit (bs ! (n div 8)) (n mod 8)"
proof -
  have "bit (horner_sum uint (2 ^ LENGTH(8)) bs) n \<longleftrightarrow>
      n div LENGTH(8) < length bs \<and> bit (bs ! (n div LENGTH(8))) (n mod LENGTH(8))"
    by (rule bit_horner_sum_uint_exp_iff)
  then show ?thesis
    by (simp add: le_word_def bit_word_of_int_iff)
qed

lemma le_word_le_bytes:
  "LENGTH('a::len) \<le> 8 * n \<Longrightarrow> le_word (le_bytes n x) = (x :: 'a word)"
proof (rule bit_word_eqI)
  fix k assume len: "LENGTH('a) \<le> 8 * n" and k: "k < LENGTH('a)"
  then have "k div 8 < n" by auto
  then show "bit (le_word (le_bytes n x) :: 'a word) k \<longleftrightarrow> bit x k"
    using k by (simp add: bit_le_word nth_le_bytes bit_ucast_iff bit_drop_bit_eq)
qed

lemma le_bytes_le_word:
  assumes "length bs = n" and "8 * n \<le> LENGTH('a::len)"
  shows "le_bytes n (le_word bs :: 'a word) = bs"
proof (rule nth_equalityI)
  show "length (le_bytes n (le_word bs :: 'a word)) = length bs"
    using assms by simp
next
  fix i assume "i < length (le_bytes n (le_word bs :: 'a word))"
  then have i: "i < n" by simp
  show "le_bytes n (le_word bs :: 'a word) ! i = bs ! i"
  proof (rule bit_word_eqI)
    fix k assume k: "k < LENGTH(8)"
    then have "8 * i + k < LENGTH('a)" using i assms(2) by simp
    moreover have "(8 * i + k) div 8 = i" "(8 * i + k) mod 8 = k" using k by simp_all
    ultimately show "bit (le_bytes n (le_word bs :: 'a word) ! i) k \<longleftrightarrow> bit (bs ! i) k"
      using i k assms(1)
      by (simp add: nth_le_bytes bit_ucast_iff bit_drop_bit_eq bit_le_word)
  qed
qed

lemma le_word_xor:
  "length as = length bs \<Longrightarrow>
   le_word (map2 (XOR) as bs) = (le_word as XOR le_word bs :: 'a::len word)"
  by (rule bit_word_eqI) (auto simp: bit_le_word bit_xor_iff)

lemma le_bytes_xor:
  "le_bytes n (x XOR y) = map2 (XOR) (le_bytes n x) (le_bytes n y)"
  by (rule nth_equalityI) (simp_all add: nth_le_bytes, rule bit_word_eqI, simp add: bit_ucast_iff bit_drop_bit_eq bit_xor_iff)

lemma byte_exhaust:
  assumes "\<forall>n \<in> set [0..<256]. P (of_nat n :: 8 word)"
  shows "P b"
proof -
  have "unat b < 256" using unsigned_less [of b, where 'a = nat] by simp
  moreover have "\<forall>n<256. P (of_nat n :: 8 word)" using assms by simp
  ultimately have "P (of_nat (unat b))" by blast
  then show ?thesis by simp
qed

lemma xtime_xor: "xtime (a XOR b) = xtime a XOR xtime b"
  by (cases "bit a 7"; cases "bit b 7")
     (simp_all add: xtime_def bit_xor_iff push_bit_xor ac_simps)

lemma gf_mul_bits_xor:
  "gf_mul_bits n c (a XOR b) = gf_mul_bits n c a XOR gf_mul_bits n c b"
proof (induction n arbitrary: c a b)
  case 0
  show ?case by simp
next
  case (Suc n)
  have "gf_mul_bits n (drop_bit 1 c) (xtime a XOR xtime b) =
      gf_mul_bits n (drop_bit 1 c) (xtime a) XOR gf_mul_bits n (drop_bit 1 c) (xtime b)"
    by (rule Suc.IH)
  then show ?case by (simp add: xtime_xor ac_simps)
qed

lemma gf_mul_xor: "gf_mul c (a XOR b) = gf_mul c a XOR gf_mul c b"
  by (simp add: gf_mul_def gf_mul_bits_xor)

lemma gf_mul_bits_numeral:
  "gf_mul_bits (numeral k) c a =
     (if bit c 0 then a else 0) XOR gf_mul_bits (pred_numeral k) (drop_bit 1 c) (xtime a)"
  by (simp add: numeral_eq_Suc)

lemma gf_mul_consts:
  "gf_mul 2 a = xtime a"
  "gf_mul 3 a = a XOR xtime a"
  "gf_mul 0x09 a = a XOR xtime (xtime (xtime a))"
  "gf_mul 0x0B a = a XOR xtime a XOR xtime (xtime (xtime a))"
  "gf_mul 0x0D a = a XOR xtime (xtime a) XOR xtime (xtime (xtime a))"
  "gf_mul 0x0E a = xtime a XOR xtime (xtime a) XOR xtime (xtime (xtime a))"
  by (simp_all add: gf_mul_def gf_mul_bits_numeral)

lemma InvMixColumns_MixColumns_column:
  "InvMixColumns (MixColumns [a0, a1, a2, a3]) = [a0, a1, a2, a3]"
  by (simp add: gf_mul_consts xtime_xor ac_simps)

lemma sbox_inverse_upto_numeral:
  "sbox_inverse_upto (numeral k) b =
     (InvSubByte (SubByte b) = b \<and> sbox_inverse_upto (pred_numeral k) (b + 1))"
  by (simp add: numeral_eq_Suc)

lemma sbox_inverse_all: "sbox_inverse_upto 256 0"
  by (simp add: sbox_inverse_upto_numeral InvSubByte_def SubByte_def sbox_table_def inv_sbox_table_def)

lemma sbox_inverse_uptoD:
  "sbox_inverse_upto n b \<Longrightarrow> k < n \<Longrightarrow> InvSubByte (SubByte (b + of_nat k)) = b + of_nat k"
proof (induction n arbitrary: b k)
  case 0
  then show ?case by simp
next
  case (Suc n)
  show ?case
  proof (cases k)
    case 0
    then show ?thesis using Suc.prems by simp
  next
    case (Suc j)
    then have "InvSubByte (SubByte (b + 1 + of_nat j)) = b + 1 + of_nat j"
      using Suc.IH [of "b + 1" j] Suc.prems by simp
    then show ?thesis using Suc by (simp add: ac_simps)
  qed
qed

lemma InvSubByte_SubByte [simp]: "InvSubByte (SubByte b) = b"
proof -
  have "unat b < 256" using unsigned_less [of b, where 'a = nat] by simp
  then have "InvSubByte (SubByte (0 + of_nat (unat b))) = 0 + of_nat (unat b)"
    by (rule sbox_inverse_uptoD [OF sbox_inverse_all])
  then show ?thesis by simp
qed

lemma list_16_cases:
  assumes "length s = 16"
  obtains b0 b1 b2 b3 b4 b5 b6 b7 b8 b9 b10 b11 b12 b13 b14 b15
  where "s = [b0, b1, b2, b3, b4, b5, b6, b7, b8, b9, b10, b11, b12, b13, b14, b15]"
proof -
  have "length s = Suc (Suc (Suc (Suc (Suc (Suc (Suc (Suc (Suc (Suc (Suc (Suc (Suc (Suc (Suc (Suc 0)))))))))))))))"
    using assms by simp
  then show thesis using that by (auto simp: length_Suc_conv)
qed

lemma length_SubBytes [simp]: "length (SubBytes s) = length s"
  by (simp add: SubBytes_def)

lemma length_InvSubBytes [simp]: "length (InvSubBytes s) = length s"
  by (simp add: InvSubBytes_def)

lemma length_ShiftRows [simp]: "length (ShiftRows s) = 16"
  by (simp add: ShiftRows_def)

lemma length_InvShiftRows [simp]: "length (InvShiftRows s) = 16"
  by (simp add: InvShiftRows_def)

lemma length_MixColumns_16 [simp]: "length s = 16 \<Longrightarrow> length (MixColumns s) = 16"
  by (erule list_16_cases) simp

lemma length_InvMixColumns_16 [simp]: "length s = 16 \<Longrightarrow> length (InvMixColumns s) = 16"
  by (erule list_16_cases) simp

lemma InvMixColumns_MixColumns:
  "length s = 16 \<Longrightarrow> InvMixColumns (MixColumns s) = s"
  by (erule list_16_cases) (simp add: gf_mul_consts xtime_xor ac_simps)

lemma InvMixColumns_xor:
  "length s = 16 \<Longrightarrow> length t = 16 \<Longrightarrow>
   InvMixColumns (map2 (XOR) s t) = map2 (XOR) (InvMixColumns s) (InvMixColumns t)"
  by (erule list_16_cases, erule list_16_cases) (simp add: gf_mul_xor ac_simps)

lemma InvSubBytes_InvShiftRows_SubBytes_ShiftRows:
  "length s = 16 \<Longrightarrow> InvSubBytes (InvShiftRows (SubBytes (ShiftRows s))) = s"
  by (erule list_16_cases)
     (simp add: InvSubBytes_def InvShiftRows_def SubBytes_def ShiftRows_def)

lemma le_bytes_16_le_word [simp]:
  "length bs = 16 \<Longrightarrow> le_bytes 16 (le_word bs :: 128 word) = bs"
  by (rule le_bytes_le_word) simp_all

lemma le_word_le_bytes_16 [simp]: "le_word (le_bytes 16 x) = (x :: 128 word)"
  by (rule le_word_le_bytes) simp

lemma aesimc_xor:
  "mm_aesimc_si128 (a XOR b) = mm_aesimc_si128 a XOR mm_aesimc_si128 b"
  by (simp add: mm_aesimc_si128_def le_bytes_xor InvMixColumns_xor le_word_xor)

lemma aesenclast_xor_key:
  "mm_xor_si128 (mm_aesenclast_si128 s k) k = mm_aesenclast_si128 s 0"
  by (simp add: mm_xor_si128_def mm_aesenclast_si128_def xor.assoc)

lemma aesdeclast_aesenclast:
  "mm_aesdeclast_si128 (mm_aesenclast_si128 s 0) k = s XOR k"
  by (simp add: mm_aesdeclast_si128_def mm_aesenclast_si128_def
      InvSubBytes_InvShiftRows_SubBytes_ShiftRows)

lemma aesdec_aesenc:
  "mm_aesdec_si128 (mm_aesenclast_si128 (mm_aesenc_si128 s k) 0) (mm_aesimc_si128 k) =
   mm_aesenclast_si128 s 0"
proof -
  let ?m = "MixColumns (SubBytes (ShiftRows (le_bytes 16 s)))"
  have len: "length ?m = 16" by simp
  have "le_bytes 16 (mm_aesenc_si128 s k) = map2 (XOR) ?m (le_bytes 16 k)"
    by (simp add: mm_aesenc_si128_def le_bytes_xor)
  then have "InvMixColumns (InvSubBytes (InvShiftRows (le_bytes 16
       (mm_aesenclast_si128 (mm_aesenc_si128 s k) 0)))) =
     map2 (XOR) (SubBytes (ShiftRows (le_bytes 16 s))) (InvMixColumns (le_bytes 16 k))"
    by (simp add: mm_aesenclast_si128_def InvSubBytes_InvShiftRows_SubBytes_ShiftRows
        InvMixColumns_xor InvMixColumns_MixColumns)
  then show ?thesis
    by (simp add: mm_aesdec_si128_def mm_aesimc_si128_def le_word_xor xor.assoc
        mm_aesenclast_si128_def)
qed

lemma load_bytes_Some:
  "off + n \<le> length mem \<Longrightarrow> load_bytes mem (int off) n = Some (take n (drop off mem))"
  by (simp add: load_bytes_def in_bounds_def)

lemma store_bytes_Some:
  "off + length bs \<le> length mem \<Longrightarrow>
   store_bytes mem (int off) bs = Some (take off mem @ bs @ drop (off + length bs) mem)"
  by (simp add: store_bytes_def in_bounds_def)

lemma store_bytes_length:
  "store_bytes mem off bs = Some mem' \<Longrightarrow> length mem' = length mem"
  by (auto simp: store_bytes_def in_bounds_def split: if_splits)

lemma loadu_round_key:
  "16 * (i + 1) \<le> length buf \<Longrightarrow> mm_loadu_si128 buf (16 * int i) = Some (round_key buf i)"
  using load_bytes_Some [of "16 * i" 16 buf]
  by (simp add: mm_loadu_si128_def round_key_def)

lemma crypt_ecb_rounds_foldl:
  "16 * (j + m) \<le> length buf \<Longrightarrow>
   crypt_ecb_rounds round (int m) buf (16 * int j) a =
     Some (16 * int (j + m), foldl round a (map (round_key buf) [j..<j + m]))"
proof (induction m arbitrary: j a)
  case 0
  show ?case by simp
next
  case (Suc m)
  have ld: "mm_loadu_si128 buf (16 * int j) = Some (round_key buf j)"
    using Suc.prems by (intro loadu_round_key) simp
  from Suc.prems have "16 * (Suc j + m) \<le> length buf" by simp
  note IH = Suc.IH [OF this, of "round a (round_key buf j)"]
  have step: "crypt_ecb_rounds round (int (Suc m)) buf (16 * int j) a =
      crypt_ecb_rounds round (int m) buf (16 * int (Suc j)) (round a (round_key buf j))"
    using ld by (subst crypt_ecb_rounds.simps) (simp del: crypt_ecb_rounds.simps add: add.commute)
  have upt: "[j..<j + Suc m] = j # [Suc j..<Suc j + m]"
    by (simp add: upt_conv_Cons)
  show ?case unfolding step IH upt by simp
qed

lemma word32_of_nat_neq_0: "0 < n \<Longrightarrow> n < 2 ^ 32 \<Longrightarrow> (of_nat n :: 32 word) \<noteq> 0"
proof
  assume n: "0 < n" "n < 2 ^ 32" and "(of_nat n :: 32 word) = 0"
  then have "2 ^ 32 dvd n" by (simp add: word_of_nat_eq_0_iff)
  then have "2 ^ 32 \<le> n" using n(1) by (rule dvd_imp_le)
  then show False using n(2) by simp
qed

lemma crypt_ecb_asm_loop_foldl:
  "16 * (j + Suc m) \<le> length buf \<Longrightarrow> Suc m < 2 ^ 32 \<Longrightarrow>
   crypt_ecb_asm_loop insn (of_nat (Suc m)) buf (16 * int j) x =
     Some (16 * int (j + Suc m), foldl (\<lambda>s k. insn k s) x (map (round_key buf) [j..<j + Suc m]))"
proof (induction m arbitrary: j x)
  case 0
  have ld: "mm_loadu_si128 buf (16 * int j) = Some (round_key buf j)"
    using 0 by (intro loadu_round_key) simp
  show ?case using ld by (subst crypt_ecb_asm_loop.simps) (simp del: crypt_ecb_asm_loop.simps)
next
  case (Suc m)
  have ld: "mm_loadu_si128 buf (16 * int j) = Some (round_key buf j)"
    using Suc.prems by (intro loadu_round_key) simp
  have eq: "(of_nat (Suc (Suc m)) :: 32 word) - 1 = of_nat (Suc m)" by simp
  have ne: "(of_nat (Suc m) :: 32 word) \<noteq> 0"
    using Suc.prems(2) by (intro word32_of_nat_neq_0) simp_all
  from Suc.prems have "16 * (Suc j + Suc m) \<le> length buf" "Suc m < 2 ^ 32" by simp_all
  note IH = Suc.IH [OF this, of "insn (round_key buf j) x"]
  have off: "16 * int (Suc j) = 16 * int j + 16" by simp
  have step: "crypt_ecb_asm_loop insn (of_nat (Suc (Suc m))) buf (16 * int j) x =
      crypt_ecb_asm_loop insn (of_nat (Suc m)) buf (16 * int j + 16) (insn (round_key buf j) x)"
    using ld ne
    by (subst crypt_ecb_asm_loop.simps, unfold eq)
       (simp del: crypt_ecb_asm_loop.simps of_nat_Suc)
  have upt: "[j..<j + Suc (Suc m)] = j # [Suc j..<Suc j + Suc m]"
    by (simp add: upt_conv_Cons)
  show ?case unfolding step IH [unfolded off] upt by simp
qed

lemma storeu_Some_0:
  "16 \<le> length output \<Longrightarrow> mm_storeu_si128 output 0 a = Some (le_bytes 16 a @ drop 16 output)"
  using store_bytes_Some [of 0 "le_bytes 16 a" "output"]
  by (simp add: mm_storeu_si128_def)

lemma loadu_Some_0:
  "16 \<le> length input \<Longrightarrow> mm_loadu_si128 input 0 = Some (le_word (take 16 input))"
  using load_bytes_Some [of 0 16 "input"] by (simp add: mm_loadu_si128_def)

lemma crypt_ecb_intrinsics_cipher128:
  assumes "1 \<le> n" "16 * (n + 1) \<le> length buf" "16 \<le> length input" "16 \<le> length output"
  shows "crypt_ecb_intrinsics \<lparr>aes_nr = int n, aes_rk = buf\<rparr> (mode_of d) input output =
     Some (0, le_bytes 16 (cipher128 d buf n (le_word (take 16 input))) @ drop 16 output)"
proof -
  obtain m where n: "n = Suc m" using assms(1) by (cases n) auto
  have k0: "mm_loadu_si128 buf 0 = Some (round_key buf 0)"
    using loadu_round_key [of 0 buf] assms(2) by simp
  have kn: "mm_loadu_si128 buf (16 * int (1 + m)) = Some (round_key buf n)"
    using loadu_round_key [of n buf] assms(2) by (simp add: n)
  have loop: "crypt_ecb_rounds f (int n - 1) buf 16 a =
      Some (16 * int (1 + m), foldl f a (map (round_key buf) [1..<n]))" for f a
    using crypt_ecb_rounds_foldl [of 1 m buf f a] assms(2) by (simp add: n)
  show ?thesis
    using k0 kn loop
    by (cases d)
       (simp_all add: crypt_ecb_intrinsics_def mode_of_def MBEDTLS_AES_ENCRYPT_def
         MBEDTLS_AES_DECRYPT_def loadu_Some_0 [OF assms(3)] storeu_Some_0 [OF assms(4)]
         cipher128_def cipher_round_def cipher_last_def mm_xor_si128_def
         del: crypt_ecb_rounds.simps)
qed

lemma crypt_ecb_asm_cipher128:
  assumes "2 \<le> n" "n < 2 ^ 31" "16 * (n + 1) \<le> length buf" "16 \<le> length input"
    "16 \<le> length output"
  shows "crypt_ecb_asm \<lparr>aes_nr = int n, aes_rk = buf\<rparr> (mode_of d) input output =
     Some (0, le_bytes 16 (cipher128 d buf n (le_word (take 16 input))) @ drop 16 output)"
proof -
  obtain m where n: "n = Suc (Suc m)" using assms(1) by (cases n; cases "n - 1") auto
  have k0: "mm_loadu_si128 buf 0 = Some (round_key buf 0)"
    using loadu_round_key [of 0 buf] assms(3) by simp
  have kn: "mm_loadu_si128 buf (16 * int (1 + Suc m)) = Some (round_key buf n)"
    using loadu_round_key [of n buf] assms(3) by (simp add: n)
  have cnt: "(of_nat n :: 32 word) - 1 = of_nat (Suc m)"
    by (simp add: n)
  have loop: "crypt_ecb_asm_loop f (of_nat (Suc m)) buf 16 a =
      Some (16 * int (1 + Suc m), foldl (\<lambda>s k. f k s) a (map (round_key buf) [1..<n]))" for f a
    using crypt_ecb_asm_loop_foldl [of 1 m buf f a] assms(2,3) by (simp add: n)
  show ?thesis
    using k0 kn loop
    by (cases d)
       (simp_all add: crypt_ecb_asm_def mode_of_def MBEDTLS_AES_ENCRYPT_def
         MBEDTLS_AES_DECRYPT_def loadu_Some_0 [OF assms(4)] cnt
         storeu_Some_0 [OF assms(5)] pxor_def AESENC_def AESDEC_def AESENCLAST_def AESDECLAST_def
         cipher128_def cipher_round_def cipher_last_def mm_xor_si128_def
         del: crypt_ecb_asm_loop.simps of_nat_Suc)
qed

lemma le_bytes_round_key:
  "16 * (i + 1) \<le> length buf \<Longrightarrow> le_bytes 16 (round_key buf i) = round_key_bytes buf i"
  by (simp add: round_key_def round_key_bytes_def)

lemma length_round_key_bytes:
  "16 * (i + 1) \<le> length buf \<Longrightarrow> length (round_key_bytes buf i) = 16"
  by (simp add: round_key_bytes_def)

lemma SubBytes_ShiftRows:
  "length s = 16 \<Longrightarrow> SubBytes (ShiftRows s) = ShiftRows (SubBytes s)"
  by (erule list_16_cases) (simp add: SubBytes_def ShiftRows_def)

lemma InvSubBytes_InvShiftRows:
  "length s = 16 \<Longrightarrow> InvSubBytes (InvShiftRows s) = InvShiftRows (InvSubBytes s)"
  by (erule list_16_cases) (simp add: InvSubBytes_def InvShiftRows_def)

lemma le_bytes_cipher_round:
  "le_bytes 16 (cipher_round d a k) = round_transform d (le_bytes 16 a) (le_bytes 16 k)"
  by (cases d)
     (simp_all add: cipher_round_def round_transform_def AddRoundKey_def mm_aesenc_si128_def
       mm_aesdec_si128_def le_bytes_xor SubBytes_ShiftRows InvSubBytes_InvShiftRows)

lemma le_bytes_cipher_last:
  "le_bytes 16 (cipher_last d a k) = final_round_transform d (le_bytes 16 a) (le_bytes 16 k)"
  by (cases d)
     (simp_all add: cipher_last_def final_round_transform_def AddRoundKey_def
       mm_aesenclast_si128_def mm_aesdeclast_si128_def le_bytes_xor SubBytes_ShiftRows
       InvSubBytes_InvShiftRows)

lemma le_bytes_foldl_cipher_round:
  "\<forall>i \<in> set is. 16 * (i + 1) \<le> length buf \<Longrightarrow>
   le_bytes 16 (foldl (cipher_round d) a (map (round_key buf) is)) =
   foldl (\<lambda>acc i. round_transform d acc (round_key_bytes buf i)) (le_bytes 16 a) is"
  by (induction "is" arbitrary: a) (simp_all add: le_bytes_cipher_round le_bytes_round_key)

lemma le_bytes_cipher128:
  assumes "16 * (n + 1) \<le> length buf"
  shows "le_bytes 16 (cipher128 d buf n x) = cryptBlock d (round_key_bytes buf) n (le_bytes 16 x)"
proof -
  have "\<forall>i \<in> set [1..<n]. 16 * (i + 1) \<le> length buf" using assms by auto
  then show ?thesis
    using assms
    by (simp add: cipher128_def cryptBlock_def le_bytes_cipher_last le_bytes_foldl_cipher_round
        le_bytes_round_key le_bytes_xor AddRoundKey_def)
qed

lemma le_bytes_le_word_take_16:
  "16 \<le> length bs \<Longrightarrow> le_bytes 16 (le_word (take 16 bs) :: 128 word) = take 16 bs"
  by simp

lemma storeu_append:
  "16 \<le> length rest \<Longrightarrow>
   mm_storeu_si128 (pre @ rest) (int (length pre)) x = Some ((pre @ le_bytes 16 x) @ drop 16 rest)"
  using store_bytes_Some [of "length pre" "le_bytes 16 x" "pre @ rest"]
  by (simp add: mm_storeu_si128_def)

lemma memcpy_append:
  "s + 16 \<le> length src \<Longrightarrow> 16 \<le> length rest \<Longrightarrow>
   memcpy (pre @ rest) (int (length pre)) src (int s) 16 =
     Some ((pre @ take 16 (drop s src)) @ drop 16 rest)"
  using store_bytes_Some [of "length pre" "take 16 (drop s src)" "pre @ rest"]
  by (simp add: memcpy_def load_bytes_Some)

lemma inverse_key_loop_closed:
  "16 * (j + 1) \<le> length fwdkey \<Longrightarrow> 16 * j \<le> length rest \<Longrightarrow>
   inverse_key_loop (pre @ rest) fwdkey (16 * int j) (int (length pre)) =
     Some (pre @ concat (map (\<lambda>i. le_bytes 16 (mm_aesimc_si128 (round_key fwdkey i))) (rev [1..<j + 1]))
             @ drop (16 * j) rest,
           0, int (length pre) + 16 * int j)"
proof (induction j arbitrary: pre rest)
  case 0
  show ?case by simp
next
  case (Suc j)
  have ld: "mm_loadu_si128 fwdkey (16 * int (Suc j)) = Some (round_key fwdkey (Suc j))"
    using Suc.prems by (intro loadu_round_key) simp
  let ?b = "le_bytes 16 (mm_aesimc_si128 (round_key fwdkey (Suc j)))"
  have st: "mm_storeu_si128 (pre @ rest) (int (length pre)) (mm_aesimc_si128 (round_key fwdkey (Suc j)))
      = Some ((pre @ ?b) @ drop 16 rest)"
    using Suc.prems by (intro storeu_append) simp
  have IH: "inverse_key_loop ((pre @ ?b) @ drop 16 rest) fwdkey (16 * int j) (int (length (pre @ ?b))) =
     Some ((pre @ ?b) @ concat (map (\<lambda>i. le_bytes 16 (mm_aesimc_si128 (round_key fwdkey i))) (rev [1..<j + 1]))
             @ drop (16 * j) (drop 16 rest),
           0, int (length (pre @ ?b)) + 16 * int j)"
    using Suc.prems by (intro Suc.IH) simp_all
  have off: "16 * int (Suc j) - 16 = 16 * int j" "int (length pre) + 16 = int (length (pre @ ?b))"
    by simp_all
  have pos: "16 * int (Suc j) > 0" by simp
  have "inverse_key_loop (pre @ rest) fwdkey (16 * int (Suc j)) (int (length pre)) =
      inverse_key_loop ((pre @ ?b) @ drop 16 rest) fwdkey (16 * int (Suc j) - 16) (int (length pre) + 16)"
    by (subst inverse_key_loop.simps) (simp only: pos if_True ld st Option.bind.simps)
  then have step: "inverse_key_loop (pre @ rest) fwdkey (16 * int (Suc j)) (int (length pre)) =
      inverse_key_loop ((pre @ ?b) @ drop 16 rest) fwdkey (16 * int j) (int (length (pre @ ?b)))"
    by (simp only: off)
  show ?case unfolding step IH by (simp add: add.commute)
qed

lemma rev_upt_1: "rev [1..<n] = map (\<lambda>i. n - i) [1..<n]"
  by (rule nth_equalityI) (simp_all add: rev_nth)

lemma length_concat_blocks:
  "\<forall>j < m. length (f j) = 16 \<Longrightarrow> length (concat (map f [0..<m])) = 16 * m"
  by (induction m) simp_all

lemma round_key_bytes_concat_blocks:
  "\<forall>j < m. length (f j) = 16 \<Longrightarrow> i < m \<Longrightarrow>
   round_key_bytes (concat (map f [0..<m]) @ rest) i = f i"
proof (induction m arbitrary: rest)
  case 0
  then show ?case by simp
next
  case (Suc m)
  have len: "length (concat (map f [0..<m])) = 16 * m"
    using Suc.prems(1) by (intro length_concat_blocks) simp
  show ?case
  proof (cases "i = m")
    case True
    then show ?thesis using len Suc.prems(1) by (simp add: round_key_bytes_def)
  next
    case False
    then have "i < m" using Suc.prems(2) by simp
    then have "round_key_bytes (concat (map f [0..<m]) @ (f m @ rest)) i = f i"
      using Suc.prems(1) by (intro Suc.IH) simp_all
    then show ?thesis by simp
  qed
qed

lemma le_bytes_aesimc_round_key:
  "16 * (i + 1) \<le> length buf \<Longrightarrow>
   le_bytes 16 (mm_aesimc_si128 (round_key buf i)) = InvMixColumns (round_key_bytes buf i)"
  by (simp add: mm_aesimc_si128_def le_bytes_round_key length_round_key_bytes)

lemma memcpy_append_0:
  "16 \<le> length src \<Longrightarrow> 16 \<le> length rest \<Longrightarrow>
   memcpy (pre @ rest) (int (length pre)) src 0 16 = Some (pre @ take 16 src @ drop 16 rest)"
  using memcpy_append [of 0 src rest pre] by simp

lemma mbedtls_aesni_inverse_key_closed:
  assumes "1 \<le> n" "16 * (n + 1) \<le> length fwdkey" "16 * (n + 1) \<le> length invkey"
  shows "mbedtls_aesni_inverse_key invkey fwdkey (int n) =
     Some (concat (map (deriveDecryptionSchedule (round_key_bytes fwdkey) n) [0..<n + 1])
           @ drop (16 * (n + 1)) invkey)"
proof -
  obtain m where n: "n = Suc m" using assms(1) by (cases n) auto
  let ?g = "\<lambda>i. le_bytes 16 (mm_aesimc_si128 (round_key fwdkey i))"
  let ?f = "deriveDecryptionSchedule (round_key_bytes fwdkey) n"
  let ?pre1 = "take 16 (drop (16 * n) fwdkey)"
  let ?mid = "concat (map ?g (rev [1..<m + 1]))"
  have m1: "memcpy invkey 0 fwdkey (16 * int n) 16 = Some (?pre1 @ drop 16 invkey)"
    using memcpy_append [of "16 * n" fwdkey "invkey" "[]"] assms by simp
  have lp: "inverse_key_loop (?pre1 @ drop 16 invkey) fwdkey (16 * int m) (int (length ?pre1)) =
      Some (?pre1 @ ?mid @ drop (16 * m) (drop 16 invkey), 0, int (length ?pre1) + 16 * int m)"
    using assms by (intro inverse_key_loop_closed) (simp_all add: n)
  have len1: "length ?pre1 = 16" using assms by simp
  have lenmid: "length ?mid = 16 * m"
    by (simp add: length_concat sum_list_triv comp_def del: upt_Suc)
  have off: "16 * int n - 16 = 16 * int m" "(0::int) + 16 = int (length ?pre1)"
    "int (length ?pre1) + 16 * int m = int (length (?pre1 @ ?mid))"
    using len1 lenmid by (simp_all add: n)
  have dd: "drop (16 * m) (drop 16 invkey) = drop (16 * n) invkey"
    by (simp add: n add.commute)
  have m2': "memcpy (?pre1 @ ?mid @ drop (16 * n) invkey) (int (length (?pre1 @ ?mid))) fwdkey 0 16
     = Some (?pre1 @ ?mid @ take 16 fwdkey @ drop 16 (drop (16 * n) invkey))"
    using memcpy_append_0 [of fwdkey "drop (16 * n) invkey" "?pre1 @ ?mid"] assms
    by (simp only: append_assoc) simp
  have res: "mbedtls_aesni_inverse_key invkey fwdkey (int n) =
      Some (?pre1 @ ?mid @ take 16 fwdkey @ drop 16 (drop (16 * n) invkey))"
    unfolding mbedtls_aesni_inverse_key_def Let_def
    by (simp only: m1 off lp dd Option.bind.simps prod.case m2')
  have f0: "?f 0 = ?pre1"
    by (simp add: deriveDecryptionSchedule_def round_key_bytes_def)
  have fn: "?f n = take 16 fwdkey"
    by (simp add: deriveDecryptionSchedule_def round_key_bytes_def n)
  have "map ?g (rev [1..<n]) = map ?f [1..<n]"
    unfolding rev_upt_1 map_map
  proof (rule map_cong [OF refl])
    fix i assume "i \<in> set [1..<n]"
    then have i: "1 \<le> i" "i < n" by auto
    then have "16 * (n - i + 1) \<le> length fwdkey" using assms(2) by simp
    then show "(?g \<circ> (-) n) i = ?f i"
      using i by (simp add: deriveDecryptionSchedule_def le_bytes_aesimc_round_key)
  qed
  then have mid: "?mid = concat (map ?f [1..<n])" by (simp add: n)
  have upt: "[0..<n + 1] = 0 # [1..<n] @ [n]"
    using assms(1) by (simp add: upt_conv_Cons n)
  have "concat (map ?f [0..<n + 1]) = ?pre1 @ ?mid @ take 16 fwdkey"
    unfolding upt mid by (simp add: f0 fn del: upt_Suc)
  then show ?thesis unfolding res by (simp add: add.commute)
qed

lemma length_deriveDecryptionSchedule:
  "16 * (n + 1) \<le> length fwdkey \<Longrightarrow> i \<le> n \<Longrightarrow>
   length (deriveDecryptionSchedule (round_key_bytes fwdkey) n i) = 16"
  by (simp add: deriveDecryptionSchedule_def length_round_key_bytes)

lemma round_key_eq_le_word: "round_key buf i = le_word (round_key_bytes buf i)"
  by (simp add: round_key_def round_key_bytes_def)

lemma inverse_key_round_key_bytes:
  assumes "1 \<le> n" "16 * (n + 1) \<le> length fwdkey" "16 * (n + 1) \<le> length invkey"
  shows "\<exists>ikey. mbedtls_aesni_inverse_key invkey fwdkey (int n) = Some ikey
    \<and> length ikey = length invkey
    \<and> drop (16 * (n + 1)) ikey = drop (16 * (n + 1)) invkey
    \<and> (\<forall>i \<le> n. round_key_bytes ikey i = deriveDecryptionSchedule (round_key_bytes fwdkey) n i)"
proof -
  let ?f = "deriveDecryptionSchedule (round_key_bytes fwdkey) n"
  let ?ikey = "concat (map ?f [0..<n + 1]) @ drop (16 * (n + 1)) invkey"
  have len16: "\<forall>j < n + 1. length (?f j) = 16"
    using assms(2) by (simp add: length_deriveDecryptionSchedule)
  then have len: "length (concat (map ?f [0..<n + 1])) = 16 * (n + 1)"
    by (rule length_concat_blocks)
  have "mbedtls_aesni_inverse_key invkey fwdkey (int n) = Some ?ikey"
    using assms by (rule mbedtls_aesni_inverse_key_closed)
  moreover have "length ?ikey = length invkey" using len assms(3) by simp
  moreover have "drop (16 * (n + 1)) ?ikey = drop (16 * (n + 1)) invkey" using len by simp
  moreover have "round_key_bytes ?ikey i = ?f i" if "i \<le> n" for i
    using len16 that by (intro round_key_bytes_concat_blocks) simp_all
  ultimately show ?thesis by blast
qed

lemma foldl_aesdec_aesenc:
  "foldl mm_aesdec_si128 (mm_aesenclast_si128 (foldl mm_aesenc_si128 s ks) 0)
     (map mm_aesimc_si128 (rev ks)) = mm_aesenclast_si128 s 0"
  by (induction ks rule: rev_induct) (simp_all add: aesdec_aesenc)

lemma cipher128_inverse:
  assumes "1 \<le> n" "16 * (n + 1) \<le> length fwdkey" "16 * (n + 1) \<le> length ikey"
    and ikey: "\<And>i. i \<le> n \<Longrightarrow> round_key_bytes ikey i = deriveDecryptionSchedule (round_key_bytes fwdkey) n i"
  shows "cipher128 Decrypt ikey n (cipher128 Encrypt fwdkey n x) = x"
proof -
  let ?ks = "map (round_key fwdkey) [1..<n]"
  have d0: "round_key ikey 0 = round_key fwdkey n"
    using ikey [of 0] by (simp add: round_key_eq_le_word deriveDecryptionSchedule_def)
  have dn: "round_key ikey n = round_key fwdkey 0"
    using ikey [of n] assms(1) by (simp add: round_key_eq_le_word deriveDecryptionSchedule_def)
  have "map (round_key ikey) [1..<n] = map (\<lambda>i. mm_aesimc_si128 (round_key fwdkey (n - i))) [1..<n]"
  proof (rule map_cong [OF refl])
    fix i assume "i \<in> set [1..<n]"
    then have i: "1 \<le> i" "i < n" by auto
    then have "16 * (n - i + 1) \<le> length fwdkey" using assms(2) by simp
    then have "le_bytes 16 (round_key fwdkey (n - i)) = round_key_bytes fwdkey (n - i)"
      by (rule le_bytes_round_key)
    then show "round_key ikey i = mm_aesimc_si128 (round_key fwdkey (n - i))"
      using ikey [of i] i
      by (simp add: round_key_eq_le_word [of ikey] deriveDecryptionSchedule_def mm_aesimc_si128_def)
  qed
  also have "\<dots> = map mm_aesimc_si128 (rev ?ks)"
    by (simp only: rev_map rev_upt_1 map_map comp_def)
  finally have ds: "map (round_key ikey) [1..<n] = map mm_aesimc_si128 (rev ?ks)" .
  let ?s = "foldl mm_aesenc_si128 (x XOR round_key fwdkey 0) ?ks"
  have enc: "cipher128 Encrypt fwdkey n x = mm_aesenclast_si128 ?s (round_key fwdkey n)"
    by (simp only: cipher128_def cipher_round_def cipher_last_def direction.case)
  have "cipher128 Decrypt ikey n (cipher128 Encrypt fwdkey n x) =
      mm_aesdeclast_si128
        (foldl mm_aesdec_si128 (mm_xor_si128 (mm_aesenclast_si128 ?s (round_key fwdkey n)) (round_key fwdkey n))
           (map mm_aesimc_si128 (rev ?ks)))
        (round_key fwdkey 0)"
    by (simp only: enc cipher128_def [of Decrypt] cipher_round_def cipher_last_def direction.case
        d0 dn ds mm_xor_si128_def)
  also have "\<dots> = (x XOR round_key fwdkey 0) XOR round_key fwdkey 0"
    by (simp only: aesenclast_xor_key foldl_aesdec_aesenc aesdeclast_aesenclast)
  also have "\<dots> = x"
    by (simp add: xor.assoc)
  finally show ?thesis .
qed

lemma storeu_take_drop:
  "0 \<le> off \<Longrightarrow> nat off + 16 \<le> length mem \<Longrightarrow>
   mm_storeu_si128 mem off x = Some (take (nat off) mem @ le_bytes 16 x @ drop (nat off + 16) mem)"
  by (simp add: mm_storeu_si128_def store_bytes_def in_bounds_def)

lemma setkey_enc_128_intrinsics_closed:
  assumes "16 \<le> length key" "176 \<le> length rk"
  shows "aesni_setkey_enc_128_intrinsics rk key =
     Some (concat (map (le_bytes 16) (iterate_keys expand_128 (take 10 round_constants)
             (le_word (take 16 key)))) @ drop 176 rk)"
  using assms
  by (simp add: aesni_setkey_enc_128_intrinsics_def EXPAND_ROUND_128_def loadu_Some_0
      storeu_take_drop round_constants_def expand_128_def)

lemmas sse_defs = pxor_def por_def pslldq_def psrldq_def psllq_def psrlq_def pshufd_def
  AESKEYGENA_def mm_xor_si128_def mm_slli_si128_def

lemma setkey_enc_128_asm_1_step:
  "setkey_enc_128_asm_1 rk r0 xmm0 (AESKEYGENA xmm0 rcon) =
     map_option (\<lambda>rk. (rk, r0 + 16, expand_128 rcon xmm0, expand_128 rcon xmm0 XOR push_bit 96 xmm0))
       (mm_storeu_si128 rk (r0 + 16) (expand_128 rcon xmm0))"
proof -
  have x1: "pxor (pslldq 4 (pslldq 4 xmm0)) (pxor (pslldq 4 xmm0) (pxor xmm0 (pshufd 0xff (AESKEYGENA xmm0 rcon))))
      = expand_128 rcon xmm0 XOR push_bit 96 xmm0"
    by (simp add: sse_defs expand_128_def aes_key_128_assist_def Let_def push_bit_push_bit ac_simps)
  have x0: "pxor (expand_128 rcon xmm0 XOR push_bit 96 xmm0) (pslldq 4 (pslldq 4 (pslldq 4 xmm0)))
      = expand_128 rcon xmm0"
    by (simp add: sse_defs push_bit_push_bit ac_simps)
  show ?thesis
    unfolding setkey_enc_128_asm_1_def Let_def x1 x0
    by (cases "mm_storeu_si128 rk (r0 + 16) (expand_128 rcon xmm0)") simp_all
qed

lemma setkey_enc_128_asm_closed:
  assumes "16 \<le> length key" "176 \<le> length rk"
  shows "aesni_setkey_enc_128_asm rk key =
     Some (concat (map (le_bytes 16) (iterate_keys expand_128 (take 10 round_constants)
             (le_word (take 16 key)))) @ drop 176 rk)"
  using assms
  by (simp add: aesni_setkey_enc_128_asm_def setkey_enc_128_asm_1_step loadu_Some_0
      storeu_take_drop round_constants_def)

lemma setkey_enc_192_asm_1_step:
  "setkey_enc_192_asm_1 rk r0 xmm0 xmm1 (AESKEYGENA xmm1 rcon) =
     do {
       rk \<leftarrow> mm_storeu_si128 rk r0 (fst (expand_192 rcon (xmm0, xmm1)));
       rk \<leftarrow> movq_store rk (r0 + 16) (snd (expand_192 rcon (xmm0, xmm1)));
       Some (rk, r0 + 16 + 8, fst (expand_192 rcon (xmm0, xmm1)), snd (expand_192 rcon (xmm0, xmm1)),
             pshufd 0xff (fst (expand_192 rcon (xmm0, xmm1))) XOR xmm1)
     }"
proof -
  define t1 where "t1 = fst (expand_192 rcon (xmm0, xmm1))"
  have x0: "pxor (pxor (pslldq 4 (pslldq 4 xmm0)) (pxor (pslldq 4 xmm0) (pxor xmm0 (pshufd 0x55 (AESKEYGENA xmm1 rcon)))))
            (pslldq 4 (pslldq 4 (pslldq 4 xmm0))) = t1"
    by (simp add: t1_def sse_defs expand_192_def aes_key_192_assist_def Let_def push_bit_push_bit ac_simps)
  have x1: "pxor (pxor xmm1 (pshufd 0xff t1)) (pslldq 4 xmm1) = snd (expand_192 rcon (xmm0, xmm1))"
    unfolding t1_def
    by (simp add: sse_defs expand_192_def aes_key_192_assist_def Let_def push_bit_push_bit ac_simps)
  have x2: "pxor xmm1 (pshufd 0xff t1) = pshufd 0xff t1 XOR xmm1"
    by (simp add: sse_defs)
  show ?thesis
    unfolding setkey_enc_192_asm_1_def Let_def x0 x1
    unfolding t1_def by (simp add: pxor_def mm_xor_si128_def)
qed

lemma setkey_enc_256_asm_1_step:
  "setkey_enc_256_asm_1 rk r0 xmm0 xmm1 (AESKEYGENA xmm1 rcon) =
     do {
       rk \<leftarrow> mm_storeu_si128 rk (r0 + 16) (fst (expand_256 rcon (xmm0, xmm1)));
       rk \<leftarrow> mm_storeu_si128 rk (r0 + 16 + 16) (snd (expand_256 rcon (xmm0, xmm1)));
       Some (rk, r0 + 16 + 16, fst (expand_256 rcon (xmm0, xmm1)), snd (expand_256 rcon (xmm0, xmm1)),
             snd (expand_256 rcon (xmm0, xmm1)) XOR push_bit 96 xmm1)
     }"
proof -
  define t1 where "t1 = fst (expand_256 rcon (xmm0, xmm1))"
  define t3 where "t3 = snd (expand_256 rcon (xmm0, xmm1))"
  have x0: "pxor (pxor (pslldq 4 (pslldq 4 xmm0)) (pxor (pslldq 4 xmm0) (pxor xmm0 (pshufd 0xff (AESKEYGENA xmm1 rcon)))))
            (pslldq 4 (pslldq 4 (pslldq 4 xmm0))) = t1"
    by (simp add: t1_def sse_defs expand_256_def aes_key_256_assist_1_def Let_def push_bit_push_bit ac_simps)
  have t3: "t3 = aes_key_256_assist_2 t1 xmm1"
    by (simp add: t3_def t1_def expand_256_def Let_def)
  have x1: "pxor (pslldq 4 (pslldq 4 xmm1)) (pxor (pslldq 4 xmm1) (pxor xmm1 (pshufd 0xaa (AESKEYGENA t1 0x00))))
      = t3 XOR push_bit 96 xmm1"
    unfolding t3
    by (simp add: sse_defs aes_key_256_assist_2_def Let_def push_bit_push_bit ac_simps)
  have x2: "pxor (t3 XOR push_bit 96 xmm1) (pslldq 4 (pslldq 4 (pslldq 4 xmm1))) = t3"
    by (simp add: sse_defs push_bit_push_bit ac_simps)
  show ?thesis
    unfolding setkey_enc_256_asm_1_def Let_def x0 x1 x2
    unfolding t1_def t3_def by simp
qed

lemma bit_nth_le_bytes:
  "i < n \<Longrightarrow> bit (le_bytes n x ! i) k \<longleftrightarrow> k < 8 \<and> bit x (8 * i + k)"
  by (auto simp: nth_le_bytes bit_ucast_iff bit_drop_bit_eq ac_simps)

lemma le_bytes_eqI:
  assumes "\<And>i k. i < n \<Longrightarrow> k < 8 \<Longrightarrow> bit x (8 * i + k) \<longleftrightarrow> bit y (8 * i + k)"
  shows "le_bytes n x = le_bytes n y"
  by (rule nth_equalityI, simp, rule bit_word_eqI) (simp add: bit_nth_le_bytes assms)

lemma le_bytes_append_split:
  "le_bytes (m + n) x = le_bytes m x @ le_bytes n (drop_bit (8 * m) x)"
  by (rule nth_equalityI)
     (auto simp: nth_le_bytes nth_append drop_bit_drop_bit algebra_simps)

lemma le_bytes_16_halves:
  "le_bytes 16 (x :: 128 word) = le_bytes 8 x @ le_bytes 8 (drop_bit 64 x)"
  using le_bytes_append_split [of 8 8 x] by simp

lemma bit_m128i_u64:
  "bit (m128i_u64 a i) k \<longleftrightarrow> k < 64 \<and> bit a (64 * i + k)"
  by (auto simp: m128i_u64_def bit_ucast_iff bit_drop_bit_eq ac_simps)

lemma le_bytes_8_u64:
  "le_bytes 8 (m128i_u64 a i) = le_bytes 8 (drop_bit (64 * i) a)"
  by (rule le_bytes_eqI) (simp add: bit_m128i_u64 bit_drop_bit_eq ac_simps)

lemma bit_mm_set_epi64x:
  "bit (mm_set_epi64x e1 e0) k \<longleftrightarrow> (if k < 64 then bit e0 k else k < 128 \<and> bit e1 (k - 64))"
  by (auto simp: mm_set_epi64x_def bit_or_iff bit_push_bit_iff bit_ucast_iff
      dest: bit_imp_le_length)

lemma le_bytes_16_set_epi64x:
  "le_bytes 16 (mm_set_epi64x e1 e0) = le_bytes 8 e0 @ le_bytes 8 e1"
proof -
  have "le_bytes 8 (mm_set_epi64x e1 e0) = le_bytes 8 e0"
    by (rule le_bytes_eqI) (simp add: bit_mm_set_epi64x)
  moreover have "le_bytes 8 (drop_bit 64 (mm_set_epi64x e1 e0)) = le_bytes 8 e1"
    by (rule le_bytes_eqI) (simp add: bit_mm_set_epi64x bit_drop_bit_eq)
  ultimately show ?thesis by (simp add: le_bytes_16_halves)
qed

lemma le_bytes_16_shuffle_epi64:
  "le_bytes 16 (mm_shuffle_epi64 a b 0) = le_bytes 8 a @ le_bytes 8 b"
  "le_bytes 16 (mm_shuffle_epi64 a b 1) = le_bytes 8 (drop_bit 64 a) @ le_bytes 8 b"
  by (simp_all add: mm_shuffle_epi64_def mm_shuffle_pd_def le_bytes_16_set_epi64x le_bytes_8_u64)

lemma movq_store_take_drop:
  "0 \<le> off \<Longrightarrow> nat off + 8 \<le> length mem \<Longrightarrow>
   movq_store mem off x = Some (take (nat off) mem @ le_bytes 8 x @ drop (nat off + 8) mem)"
  by (simp add: movq_store_def store_bytes_def in_bounds_def)

lemma loadu_Some_16:
  "32 \<le> length key \<Longrightarrow> mm_loadu_si128 key 16 = Some (le_word (take 16 (drop 16 key)))"
  using load_bytes_Some [of 16 16 key] by (simp add: mm_loadu_si128_def)

lemma movq_load_Some_16:
  "24 \<le> length key \<Longrightarrow> movq_load key 16 = Some (le_word (take 8 (drop 16 key)))"
  using load_bytes_Some [of 16 8 key] by (simp add: movq_load_def)

lemma setkey_enc_192_asm_closed:
  assumes "24 \<le> length key" "216 \<le> length rk"
  shows "aesni_setkey_enc_192_asm rk key =
     Some (concat (map key_bytes_192 (iterate_keys expand_192 (take 8 round_constants)
             (le_word (take 16 key), le_word (take 8 (drop 16 key))))) @ drop 216 rk)"
  using assms
  by (simp add: aesni_setkey_enc_192_asm_def setkey_enc_192_asm_1_step loadu_Some_0
      movq_load_Some_16 storeu_take_drop movq_store_take_drop round_constants_def key_bytes_192_def)

lemma setkey_enc_256_asm_closed:
  assumes "32 \<le> length key" "256 \<le> length rk"
  shows "aesni_setkey_enc_256_asm rk key =
     Some (concat (map key_bytes_256 (iterate_keys expand_256 (take 7 round_constants)
             (le_word (take 16 key), le_word (take 16 (drop 16 key))))) @ drop 256 rk)"
  using assms
  by (simp add: aesni_setkey_enc_256_asm_def setkey_enc_256_asm_1_step loadu_Some_0
      loadu_Some_16 storeu_take_drop round_constants_def key_bytes_256_def)

lemma fold_expand_128: "aes_key_128_assist temp (mm_aeskeygenassist_si128 temp rcon) = expand_128 rcon temp"
  by (simp add: expand_128_def)

lemma fold_expand_192:
  "aes_key_192_assist temp1 temp3 (mm_aeskeygenassist_si128 temp3 rcon) = expand_192 rcon (temp1, temp3)"
  by (simp add: expand_192_def)

lemma EXPAND_ROUND_192_closed:
  "EXPAND_ROUND_192 rk index rcon1 rcon2 temp1 temp3 = do {
     rk \<leftarrow> mm_storeu_si128 rk (16 * (index + 0)) temp1;
     rk \<leftarrow> mm_storeu_si128 rk (16 * (index + 1))
            (mm_shuffle_epi64 temp3 (fst (expand_192 rcon1 (temp1, temp3))) 0);
     rk \<leftarrow> mm_storeu_si128 rk (16 * (index + 2))
            (mm_shuffle_epi64 (fst (expand_192 rcon1 (temp1, temp3)))
               (snd (expand_192 rcon1 (temp1, temp3))) 1);
     Some (rk, expand_192 rcon2 (expand_192 rcon1 (temp1, temp3)))
   }"
  by (simp add: EXPAND_ROUND_192_def Let_def split_beta expand_192_def)

lemma le_bytes_16_join [simp]:
  "le_bytes 8 (x :: 128 word) @ le_bytes 8 (drop_bit 64 x) @ zs = le_bytes 16 x @ zs"
  by (simp add: le_bytes_16_halves)

lemma setkey_enc_192_intrinsics_closed:
  assumes "32 \<le> length key" "208 \<le> length rk"
  shows "aesni_setkey_enc_192_intrinsics rk key =
     Some (take 208 (concat (map key_bytes_192 (iterate_keys expand_192 (take 8 round_constants)
             (le_word (take 16 key), le_word (take 16 (drop 16 key)))))) @ drop 208 rk)"
  using assms
  by (simp add: aesni_setkey_enc_192_intrinsics_def EXPAND_ROUND_192_closed loadu_Some_0
      loadu_Some_16 storeu_take_drop round_constants_def key_bytes_192_def
      le_bytes_16_shuffle_epi64 split_beta)

lemma EXPAND_ROUND_256_closed:
  "EXPAND_ROUND1_256 rk index rcon temp1 temp3 = do {
     rk \<leftarrow> mm_storeu_si128 rk (16 * index) (fst (expand_256 rcon (temp1, temp3)));
     Some (rk, fst (expand_256 rcon (temp1, temp3)))
   }"
  "EXPAND_ROUND2_256 rk index (fst (expand_256 rcon (temp1, temp3))) temp3 = do {
     rk \<leftarrow> mm_storeu_si128 rk (16 * index) (snd (expand_256 rcon (temp1, temp3)));
     Some (rk, snd (expand_256 rcon (temp1, temp3)))
   }"
  by (simp_all add: EXPAND_ROUND1_256_def EXPAND_ROUND2_256_def expand_256_def Let_def)

lemma setkey_enc_256_intrinsics_closed:
  assumes "32 \<le> length key" "240 \<le> length rk"
  shows "aesni_setkey_enc_256_intrinsics rk key =
     Some (take 240 (concat (map key_bytes_256 (iterate_keys expand_256 (take 7 round_constants)
             (le_word (take 16 key), le_word (take 16 (drop 16 key)))))) @ drop 240 rk)"
  using assms
  by (simp add: aesni_setkey_enc_256_intrinsics_def EXPAND_ROUND_256_closed loadu_Some_0
      loadu_Some_16 storeu_take_drop round_constants_def key_bytes_256_def)

subsection \<open>Auxiliary facts about the multiplication\<close>

lemma finite_clmul_set [simp]: "finite (clmul_set a b m n)"
  by (simp add: clmul_set_def)

lemma clmul_set_Suc:
  "clmul_set a b (Suc m) n =
     (if bit a m \<and> m \<le> n \<and> bit b (n - m) then insert m (clmul_set a b m n)
      else clmul_set a b m n)"
  by (auto simp: clmul_set_def less_Suc_eq)

lemma clmul_set_notin: "m \<notin> clmul_set a b m n"
  by (simp add: clmul_set_def)

lemma bit_clmul_foldr:
  "bit (foldr (\<lambda>i acc. if bit a i then acc XOR push_bit i (ucast b) else acc) [0..<m]
          (acc :: 128 word)) n \<longleftrightarrow>
   (bit acc n \<noteq> (n < 128 \<and> odd (card (clmul_set a b m n))))"
proof (induction m arbitrary: acc)
  case 0
  show ?case by (simp add: clmul_set_def)
next
  case (Suc m)
  show ?case
    by (simp add: Suc.IH clmul_set_Suc clmul_set_notin bit_xor_iff bit_push_bit_iff
        bit_ucast_iff)
       (auto dest: bit_imp_le_length)
qed

lemma bit_clmul64:
  "bit (clmul64 a b) n \<longleftrightarrow> n < 128 \<and> odd (card (clmul_set a b 64 n))"
  by (simp add: clmul64_def bit_clmul_foldr)

lemma card_clmul_set_commute:
  "card (clmul_set a b 64 n) = card (clmul_set b a 64 n)"
proof (rule bij_betw_same_card [of "\<lambda>i. n - i"])
  show "bij_betw (\<lambda>i. n - i) (clmul_set a b 64 n) (clmul_set b a 64 n)"
  proof (rule bij_betw_byWitness [of _ "\<lambda>i. n - i"])
    show "\<forall>i \<in> clmul_set a b 64 n. n - (n - i) = i" by (simp add: clmul_set_def)
    show "\<forall>i \<in> clmul_set b a 64 n. n - (n - i) = i" by (simp add: clmul_set_def)
    show "(\<lambda>i. n - i) ` clmul_set a b 64 n \<subseteq> clmul_set b a 64 n"
      by (auto simp: clmul_set_def dest: bit_imp_le_length)
    show "(\<lambda>i. n - i) ` clmul_set b a 64 n \<subseteq> clmul_set a b 64 n"
      by (auto simp: clmul_set_def dest: bit_imp_le_length)
  qed
qed

lemma clmul64_commute: "clmul64 a b = clmul64 b a"
  by (rule bit_eqI) (simp add: bit_clmul64 card_clmul_set_commute)

lemma clmul64_0 [simp]: "clmul64 a 0 = 0" "clmul64 0 b = 0"
  by (rule bit_eqI, simp add: bit_clmul64 clmul_set_def)+

lemma bit_mm_slli_epi64:
  "bit (mm_slli_epi64 x k) n \<longleftrightarrow> n < 128 \<and> k \<le> n mod 64 \<and> bit x (n - k)"
proof (cases "n < 64")
  case True
  then show ?thesis
    by (auto simp: mm_slli_epi64_def bit_mm_set_epi64x bit_push_bit_iff bit_m128i_u64)
next
  case False
  then have "n mod 64 = n - 64" if "n < 128" using that by (simp add: mod_if)
  then show ?thesis using False
    by (auto simp: mm_slli_epi64_def bit_mm_set_epi64x bit_push_bit_iff bit_m128i_u64
        dest: bit_imp_le_length)
qed

lemma bit_mm_srli_epi64:
  "bit (mm_srli_epi64 x k) n \<longleftrightarrow> n < 128 \<and> n mod 64 + k < 64 \<and> bit x (n + k)"
proof (cases "n < 64")
  case True
  then show ?thesis
    by (auto simp: mm_srli_epi64_def bit_mm_set_epi64x bit_drop_bit_eq bit_m128i_u64 ac_simps
        dest: bit_imp_le_length)
next
  case False
  then have "n mod 64 = n - 64" if "n < 128" using that by (simp add: mod_if)
  then show ?thesis using False
    by (auto simp: mm_srli_epi64_def bit_mm_set_epi64x bit_drop_bit_eq bit_m128i_u64 ac_simps
        dest: bit_imp_le_length)
qed

lemma or_eq_xor_disjoint:
  fixes a b :: "'a::len word"
  assumes "\<And>n. \<not> (bit a n \<and> bit b n)"
  shows "a OR b = a XOR b"
  by (rule bit_eqI) (use assms in \<open>auto simp: bit_or_iff bit_xor_iff\<close>)

lemma shift_right_fold:
  "k \<le> 64 \<Longrightarrow>
   mm_or_si128 (mm_srli_epi64 x k) (mm_srli_si128 (mm_slli_epi64 x (64 - k)) 8) =
   mm_srli_epi64 x k XOR mm_srli_si128 (mm_slli_epi64 x (64 - k)) 8"
  unfolding mm_or_si128_def
  by (rule or_eq_xor_disjoint)
     (auto simp: bit_mm_srli_epi64 bit_mm_slli_epi64 mm_srli_si128_def bit_drop_bit_eq)

lemma gcm_mult_asm_clmul_eq: "gcm_mult_asm_clmul xa xb = clmul256 xa xb"
  by (simp add: gcm_mult_asm_clmul_def clmul256_def Let_def PCLMULQDQ_def pxor_def pslldq_def
      psrldq_def mm_clmulepi64_si128_def mm_xor_si128_def clmul64_commute ac_simps)

lemma gcm_mult_asm_shift_eq: "gcm_mult_asm_shift x1 x2 = sll256 x1 x2"
  by (simp add: gcm_mult_asm_shift_def sll256_def Let_def por_def pslldq_def psrldq_def
      psllq_def psrlq_def mm_or_si128_def ac_simps)

lemma gcm_mult_asm_reduce_eq: "gcm_mult_asm_reduce x1 x2 = reducemod128 x1 x2"
proof -
  have f: "mm_or_si128 (mm_srli_epi64 x 1) (mm_srli_si128 (mm_slli_epi64 x 63) 8) =
      mm_srli_epi64 x 1 XOR mm_srli_si128 (mm_slli_epi64 x 63) 8"
    "mm_or_si128 (mm_srli_epi64 x 2) (mm_srli_si128 (mm_slli_epi64 x 62) 8) =
      mm_srli_epi64 x 2 XOR mm_srli_si128 (mm_slli_epi64 x 62) 8"
    "mm_or_si128 (mm_srli_epi64 x 7) (mm_srli_si128 (mm_slli_epi64 x 57) 8) =
      mm_srli_epi64 x 7 XOR mm_srli_si128 (mm_slli_epi64 x 57) 8" for x
    using shift_right_fold [of 1 x] shift_right_fold [of 2 x] shift_right_fold [of 7 x]
    by simp_all
  define dx0 where "dx0 = mm_xor_si128 x1
      (mm_slli_si128 (mm_xor_si128 (mm_xor_si128 (mm_slli_epi64 x1 63) (mm_slli_epi64 x1 62))
         (mm_slli_epi64 x1 57)) 8)"
  have a: "gcm_mult_asm_reduce x1 x2 =
      mm_srli_epi64 dx0 1 XOR mm_srli_epi64 dx0 2 XOR mm_srli_epi64 dx0 7 XOR
      mm_srli_si128 (mm_slli_epi64 dx0 63 XOR mm_slli_epi64 dx0 62 XOR mm_slli_epi64 dx0 57) 8
      XOR dx0 XOR x2"
    unfolding gcm_mult_asm_reduce_def Let_def pxor_def pslldq_def psrldq_def psllq_def psrlq_def
    by (fold dx0_def) (simp add: mm_xor_si128_def ac_simps)
  have b: "reducemod128 x1 x2 =
      mm_srli_epi64 dx0 1 XOR mm_srli_epi64 dx0 2 XOR mm_srli_epi64 dx0 7 XOR
      mm_srli_si128 (mm_slli_epi64 dx0 63 XOR mm_slli_epi64 dx0 62 XOR mm_slli_epi64 dx0 57) 8
      XOR dx0 XOR x2"
    unfolding reducemod128_def Let_def f
    by (fold dx0_def) (simp add: mm_xor_si128_def mm_srli_si128_def drop_bit_xor ac_simps)
  show ?thesis unfolding a b ..
qed

lemma gcm_mult_asm_block_eq: "gcm_mult_asm_block xa xb = gf128_multiply xa xb"
  by (simp add: gcm_mult_asm_block_def gf128_multiply_def gcm_mult_asm_clmul_eq
      gcm_mult_asm_shift_eq gcm_mult_asm_reduce_eq)

lemma byte_reverse_16_Some:
  "16 \<le> length a \<Longrightarrow> byte_reverse_16 a = Some (rev (take 16 a))"
  by (auto simp: byte_reverse_16_def in_bounds_def rev_nth intro!: nth_equalityI)

lemma load_uint64_Some:
  "off + 8 \<le> length a \<Longrightarrow> load_uint64 a (int off) = Some (le_word (take 8 (drop off a)))"
  by (simp add: load_uint64_def load_bytes_Some)

lemma le_bytes_8_le_word [simp]:
  "length bs = 8 \<Longrightarrow> le_bytes 8 (le_word bs :: 64 word) = bs"
  by (rule le_bytes_le_word) simp_all

lemma le_word_le_bytes_8 [simp]: "le_word (le_bytes 8 x) = (x :: 64 word)"
  by (rule le_word_le_bytes) simp

lemma le_bytes_8_byteswap: "le_bytes 8 (byteswap_uint64 x) = rev (le_bytes 8 x)"
  by (simp add: byteswap_uint64_def)

lemma gcm_mult_intrinsics_input:
  assumes "16 \<le> length a"
  shows "mm_set_epi64x (byteswap_uint64 (le_word (take 8 a)))
           (byteswap_uint64 (le_word (take 8 (drop 8 a)))) = be_word_16 a"
proof -
  have t: "take 16 a = take 8 a @ take 8 (drop 8 a)"
    using take_add [where i = 8 and j = 8 and xs = a] by simp
  have "le_bytes 16 (mm_set_epi64x (byteswap_uint64 (le_word (take 8 a)))
           (byteswap_uint64 (le_word (take 8 (drop 8 a))))) = rev (take 16 a)"
    using assms by (simp add: le_bytes_16_set_epi64x le_bytes_8_byteswap t)
  then have "le_word (le_bytes 16 (mm_set_epi64x (byteswap_uint64 (le_word (take 8 a)))
           (byteswap_uint64 (le_word (take 8 (drop 8 a)))))) = be_word_16 a"
    by (simp only: be_word_16_def)
  then show ?thesis by simp
qed

lemma gcm_mult_intrinsics_closed:
  assumes "16 \<le> length a" "16 \<le> length b" "16 \<le> length c"
  shows "gcm_mult_intrinsics c a b = Some (multiply a b @ drop 16 c)"
proof -
  let ?r = "gf128_multiply (be_word_16 a) (be_word_16 b)"
  have ld: "load_uint64 a 0 = Some (le_word (take 8 a))"
    "load_uint64 a 8 = Some (le_word (take 8 (drop 8 a)))"
    "load_uint64 b 0 = Some (le_word (take 8 b))"
    "load_uint64 b 8 = Some (le_word (take 8 (drop 8 b)))"
    using load_uint64_Some [of 0 a] load_uint64_Some [of 8 a]
      load_uint64_Some [of 0 b] load_uint64_Some [of 8 b] assms by simp_all
  have out: "multiply a b = rev (le_bytes 8 (m128i_u64 ?r 1)) @ rev (le_bytes 8 (m128i_u64 ?r 0))"
    by (simp add: multiply_def le_bytes_16_halves le_bytes_8_u64)
  have st: "do { c \<leftarrow> store_uint64 c 0 (byteswap_uint64 (m128i_u64 ?r 1));
               store_uint64 c 8 (byteswap_uint64 (m128i_u64 ?r 0)) } =
      Some (multiply a b @ drop 16 c)"
    using assms(3)
    by (simp add: store_uint64_def store_bytes_def in_bounds_def le_bytes_8_byteswap out)
  show ?thesis
    unfolding gcm_mult_intrinsics_def
    using st
    by (simp add: ld gcm_mult_intrinsics_input [OF assms(1)] gcm_mult_intrinsics_input [OF assms(2)]
        gf128_multiply_def split_beta Let_def)
qed

lemma gcm_mult_asm_closed:
  assumes "16 \<le> length a" "16 \<le> length b" "16 \<le> length c"
  shows "gcm_mult_asm c a b = Some (multiply a b @ drop 16 c)"
  using assms
  by (simp add: gcm_mult_asm_def byte_reverse_16_Some loadu_Some_0 gcm_mult_asm_block_eq
      multiply_def be_word_16_def store_bytes_def in_bounds_def)

lemma clmul256_commute: "clmul256 xa xb = clmul256 xb xa"
  by (simp add: clmul256_def Let_def mm_clmulepi64_si128_def mm_xor_si128_def
      clmul64_commute [of "m128i_u64 xa 0"] clmul64_commute [of "m128i_u64 xa (Suc 0)"] ac_simps)

lemma gf128_multiply_commute: "gf128_multiply xa xb = gf128_multiply xb xa"
  by (simp add: gf128_multiply_def clmul256_commute)

lemma m128i_u64_0 [simp]: "m128i_u64 0 i = 0"
  by (simp add: m128i_u64_def)

lemma gf128_multiply_0: "gf128_multiply xa 0 = 0"
  by (simp add: gf128_multiply_def clmul256_def sll256_def reducemod128_def Let_def
      mm_clmulepi64_si128_def mm_xor_si128_def mm_or_si128_def mm_slli_si128_def
      mm_srli_si128_def mm_slli_epi64_def mm_srli_epi64_def mm_set_epi64x_def)

lemma be_word_16_zero: "be_word_16 (replicate 16 0) = 0"
  by (rule bit_eqI) (simp add: be_word_16_def bit_le_word)

lemma le_bytes_zero: "le_bytes n 0 = replicate n 0"
  by (simp add: le_bytes_def map_replicate_const)

lemma multiply_commute: "multiply a b = multiply b a"
  by (simp add: multiply_def gf128_multiply_commute)

lemma multiply_zero: "multiply a (replicate 16 0) = replicate 16 0"
  by (simp add: multiply_def be_word_16_zero gf128_multiply_0 le_bytes_zero)

lemma upt_numeral_unfold:
  "[m..<numeral n] = (if m < numeral n then m # [m + 1..<numeral n] else [])"
  by (simp add: upt_rec)

lemma ghash_H:
  "be_word_16 [0x66, 0xe9, 0x4b, 0xd4, 0xef, 0x8a, 0x2c, 0x3b, 0x88, 0x4c, 0xfa, 0x59, 0xca, 0x34, 0x2b, 0x2e]
     = 0x66E94BD4EF8A2C3B884CFA59CA342B2E"
  by (simp add: be_word_16_def le_word_def)

lemma ghash_X:
  "be_word_16 [0x03, 0x88, 0xda, 0xce, 0x60, 0xb6, 0xa3, 0x92, 0xf3, 0x28, 0xc2, 0xb9, 0x71, 0xb2, 0xfe, 0x78]
     = 0x0388DACE60B6A392F328C2B971B2FE78"
  by (simp add: be_word_16_def le_word_def)

lemma ghash_clmul256:
  "clmul256 0x66E94BD4EF8A2C3B884CFA59CA342B2E 0x0388DACE60B6A392F328C2B971B2FE78 =
     (0x1FF4A78A706884B0473EFE75603871D0, 0x009B5741881E078903A29B1A4B43CAF4)"
  by (simp add: clmul256_def Let_def mm_clmulepi64_si128_def clmul64_def upt_numeral_unfold m128i_u64_def
      mm_xor_si128_def mm_slli_si128_def mm_srli_si128_def)

lemma ghash_sll256:
  "sll256 0x1FF4A78A706884B0473EFE75603871D0 0x009B5741881E078903A29B1A4B43CAF4 =
     (0x3FE94F14E0D109608E7DFCEAC070E3A0, 0x0136AE83103C0F1207453634968795E8)"
  by (simp add: sll256_def Let_def mm_slli_epi64_def mm_srli_epi64_def mm_set_epi64x_def
      m128i_u64_def mm_or_si128_def mm_slli_si128_def mm_srli_si128_def)

lemma ghash_reducemod128:
  "reducemod128 0x3FE94F14E0D109608E7DFCEAC070E3A0 0x0136AE83103C0F1207453634968795E8 =
     0x5E2EC746917062882C85B0685353DEB7"
  by (simp add: reducemod128_def Let_def mm_slli_epi64_def mm_srli_epi64_def mm_set_epi64x_def
      m128i_u64_def mm_or_si128_def mm_xor_si128_def mm_slli_si128_def mm_srli_si128_def)

lemma ghash_multiply:
  "multiply [0x66, 0xe9, 0x4b, 0xd4, 0xef, 0x8a, 0x2c, 0x3b, 0x88, 0x4c, 0xfa, 0x59, 0xca, 0x34, 0x2b, 0x2e]
            [0x03, 0x88, 0xda, 0xce, 0x60, 0xb6, 0xa3, 0x92, 0xf3, 0x28, 0xc2, 0xb9, 0x71, 0xb2, 0xfe, 0x78]
   = [0x5e, 0x2e, 0xc7, 0x46, 0x91, 0x70, 0x62, 0x88, 0x2c, 0x85, 0xb0, 0x68, 0x53, 0x53, 0xde, 0xb7]"
  by (simp add: multiply_def ghash_H ghash_X gf128_multiply_def ghash_clmul256 ghash_sll256
      ghash_reducemod128 le_bytes_def upt_numeral_unfold)

subsection \<open>Properties of the support detection\<close>

lemma has_support_run_length: "length (has_support_run st calls) = length calls"
  by (induction st calls rule: has_support_run.induct) simp_all

lemma has_support_done_after:
  "hs_done (snd (mbedtls_aesni_has_support ecx st what)) \<noteq> 0"
  by (simp add: mbedtls_aesni_has_support_def Let_def)

lemma has_support_cached_step:
  "hs_done st \<noteq> 0 \<Longrightarrow>
   mbedtls_aesni_has_support ecx st what = ((if (hs_c st AND what) \<noteq> 0 then 1 else 0), st)"
  by (simp add: mbedtls_aesni_has_support_def)

lemma has_support_run_cached:
  "hs_done st \<noteq> 0 \<Longrightarrow> k < length calls \<Longrightarrow>
   has_support_run st calls ! k =
     (False, if (hs_c st AND snd (calls ! k)) \<noteq> 0 then 1 else 0)"
proof (induction st calls arbitrary: k rule: has_support_run.induct)
  case (1 st)
  then show ?case by simp
next
  case (2 st ecx what calls)
  have step: "mbedtls_aesni_has_support ecx st what =
      ((if (hs_c st AND what) \<noteq> 0 then 1 else 0), st)"
    using "2.prems"(1) by (rule has_support_cached_step)
  show ?case
  proof (cases k)
    case 0
    then show ?thesis using "2.prems"(1) by (simp add: step executes_cpuid_def)
  next
    case (Suc j)
    then have "j < length calls" using "2.prems"(2) by simp
    then have "has_support_run st calls ! j =
        (False, if (hs_c st AND snd (calls ! j)) \<noteq> 0 then 1 else 0)"
      using "2.IH" [of j] "2.prems"(1) by (simp add: step)
    then show ?thesis using Suc by (simp add: step)
  qed
qed

lemma has_support_run_first:
  "has_support_run has_support_init ((ecx, what) # calls) ! 0 =
     (True, if (ecx AND what) \<noteq> 0 then 1 else 0)"
  by (simp add: has_support_init_def executes_cpuid_def mbedtls_aesni_has_support_def)

lemma has_support_run_later:
  assumes "k < length calls"
  shows "has_support_run has_support_init ((ecx, what) # calls) ! Suc k =
     (False, if (ecx AND snd (calls ! k)) \<noteq> 0 then 1 else 0)"
proof -
  let ?st = "snd (mbedtls_aesni_has_support ecx has_support_init what)"
  have d: "hs_done ?st \<noteq> 0" by (rule has_support_done_after)
  have c: "hs_c ?st = ecx"
    by (simp add: has_support_init_def mbedtls_aesni_has_support_def)
  show ?thesis using has_support_run_cached [OF d assms] by (simp add: c)
qed

text \<open>
  C9. In a process run that starts from the initial statics, every call returns the
  answer derived from the one feature word stored by the first call: call \<open>k\<close> with
  mask \<open>what\<close> returns whether \<open>ecx\<^sub>0 AND what\<close> is non-zero, where \<open>ecx\<^sub>0\<close> is the
  \<^verbatim>\<open>cpuid\<close> answer of the first call, whatever \<^verbatim>\<open>cpuid\<close> would answer later. Hence two
  calls with the same mask return the same value, and no call after the first executes
  \<^verbatim>\<open>cpuid\<close>: the feature bits are computed at most once.
\<close>

theorem has_support_same_on_every_call:
  assumes "calls \<noteq> []" and "i < length calls" and "j < length calls"
  shows "snd (has_support_run has_support_init calls ! i) =
           (if (fst (hd calls) AND snd (calls ! i)) \<noteq> 0 then 1 else 0)
       \<and> (snd (calls ! i) = snd (calls ! j) \<longrightarrow>
            snd (has_support_run has_support_init calls ! i) =
            snd (has_support_run has_support_init calls ! j))
       \<and> (fst (has_support_run has_support_init calls ! i) \<longleftrightarrow> i = 0)"
proof -
  obtain ecx what rest where calls: "calls = (ecx, what) # rest"
    using assms(1) by (cases calls) auto
  have ret: "has_support_run has_support_init calls ! k =
      (k = 0, if (ecx AND snd (calls ! k)) \<noteq> 0 then 1 else 0)"
    if "k < length calls" for k
  proof (cases k)
    case 0
    then show ?thesis using has_support_run_first [of ecx what rest] by (simp add: calls)
  next
    case (Suc m)
    then have "m < length rest" using that by (simp add: calls)
    then show ?thesis using has_support_run_later [of m rest ecx what] Suc
      by (simp add: calls)
  qed
  show ?thesis using ret [OF assms(2)] ret [OF assms(3)] by (simp add: calls)
qed

theorem has_support_same_on_every_call_witness:
  "snd (has_support_run has_support_init
          [(0x02000002, 0x02000000), (0, 2), (0xFFFFFFFF, 0x02000000), (5, 4)] ! 2) = 1
   \<and> snd (has_support_run has_support_init
          [(0x02000002, 0x02000000), (0, 2), (0xFFFFFFFF, 0x02000000), (5, 4)] ! 0) = 1
   \<and> \<not> fst (has_support_run has_support_init
          [(0x02000002, 0x02000000), (0, 2), (0xFFFFFFFF, 0x02000000), (5, 4)] ! 2)"
  using has_support_same_on_every_call
    [of "[(0x02000002, 0x02000000), (0, 2), (0xFFFFFFFF, 0x02000000), (5, 4)]" 2 0]
  by simp

text \<open>
  C10. A call with the empty mask returns 0 (false), whatever the statics hold and
  whatever \<^verbatim>\<open>cpuid\<close> answers.
\<close>

theorem has_support_empty_mask:
  "fst (mbedtls_aesni_has_support ecx st 0) = 0"
  by (simp add: mbedtls_aesni_has_support_def Let_def)

subsection \<open>Properties of the block cipher and of the inverse key schedule\<close>

lemma crypt_ecb_cipher128:
  assumes "2 \<le> n" "n < 2 ^ 31" "16 * (n + 1) \<le> length buf" "16 \<le> length input"
    "16 \<le> length output"
  shows "mbedtls_aesni_crypt_ecb v \<lparr>aes_nr = int n, aes_rk = buf\<rparr> (mode_of d) input output =
     Some (0, le_bytes 16 (cipher128 d buf n (le_word (take 16 input))) @ drop 16 output)"
proof (cases v)
  case INLINE_ASM
  then show ?thesis
    using crypt_ecb_asm_cipher128 [OF assms] by (simp add: mbedtls_aesni_crypt_ecb_def)
next
  case USE_MSVC_X64_INTRINSICS
  have "1 \<le> n" using assms(1) by simp
  then show ?thesis
    using crypt_ecb_intrinsics_cipher128 [OF _ assms(3,4,5), of d] USE_MSVC_X64_INTRINSICS
    by (simp add: mbedtls_aesni_crypt_ecb_def)
qed

text \<open>
  C2. In both variants and both directions, with at least two rounds, a round-key
  buffer of \<open>rounds + 1\<close> round keys and 16 bytes of input, the function returns 0 and
  writes into the first 16 bytes of the output what the algorithm of the specification
  computes from the round keys of the buffer: the accumulator is the input XOR round
  key 0; the round transform is applied with round keys 1 to \<open>rounds - 1\<close> in order;
  the final-round transform is applied with round key \<open>rounds\<close>. Decryption applies the
  inverse transforms in the same positional order. The rest of the output buffer is
  unchanged.
\<close>

theorem crypt_ecb_follows_cryptBlock:
  assumes "2 \<le> rounds" and "rounds < 2 ^ 31"
    and "aes_nr ctx = int rounds"
    and "16 * (rounds + 1) \<le> length (aes_rk ctx)"
    and "16 \<le> length input" and "16 \<le> length output"
  shows "mbedtls_aesni_crypt_ecb v ctx (mode_of d) input output =
     Some (0, cryptBlock d (round_key_bytes (aes_rk ctx)) rounds (take 16 input) @ drop 16 output)"
proof -
  have ctx: "ctx = \<lparr>aes_nr = int rounds, aes_rk = aes_rk ctx\<rparr>"
    using assms(3) by (cases ctx) simp
  have "mbedtls_aesni_crypt_ecb v \<lparr>aes_nr = int rounds, aes_rk = aes_rk ctx\<rparr> (mode_of d) input output =
     Some (0, le_bytes 16 (cipher128 d (aes_rk ctx) rounds (le_word (take 16 input))) @ drop 16 output)"
    using assms(1,2,4,5,6) by (rule crypt_ecb_cipher128)
  moreover have "le_bytes 16 (cipher128 d (aes_rk ctx) rounds (le_word (take 16 input))) =
      cryptBlock d (round_key_bytes (aes_rk ctx)) rounds (take 16 input)"
    using assms(4,5) by (simp add: le_bytes_cipher128)
  ultimately show ?thesis using ctx by simp
qed

theorem crypt_ecb_follows_cryptBlock_witness:
  "mbedtls_aesni_crypt_ecb INLINE_ASM \<lparr>aes_nr = 10, aes_rk = replicate 176 1\<rparr>
      (mode_of Decrypt) (replicate 16 2) (replicate 20 3) =
     Some (0, cryptBlock Decrypt (round_key_bytes (replicate 176 1)) 10 (replicate 16 2)
              @ replicate 4 3)"
  using crypt_ecb_follows_cryptBlock
    [of 10 "\<lparr>aes_nr = 10, aes_rk = replicate 176 1\<rparr>" "replicate 16 2" "replicate 20 3"
        INLINE_ASM Decrypt]
  by simp

text \<open>
  C5. For at least one round and buffers of \<open>rounds + 1\<close> round keys, the function
  returns a buffer whose round key 0 is forward round key \<open>rounds\<close>, whose round key
  \<open>rounds\<close> is forward round key 0, and whose round key \<open>i\<close>, for \<open>0 < i < rounds\<close>, is
  Inverse-MixColumns of forward round key \<open>rounds - i\<close>. Nothing else of the buffer
  changes.
\<close>

theorem inverse_key_derives_decryption_schedule:
  assumes "1 \<le> rounds"
    and "16 * (rounds + 1) \<le> length fwdkey" and "16 * (rounds + 1) \<le> length invkey"
  shows "\<exists>ikey. mbedtls_aesni_inverse_key invkey fwdkey (int rounds) = Some ikey
     \<and> round_key_bytes ikey 0 = round_key_bytes fwdkey rounds
     \<and> round_key_bytes ikey rounds = round_key_bytes fwdkey 0
     \<and> (\<forall>i. 0 < i \<and> i < rounds \<longrightarrow>
            round_key_bytes ikey i = InvMixColumns (round_key_bytes fwdkey (rounds - i)))
     \<and> length ikey = length invkey
     \<and> drop (16 * (rounds + 1)) ikey = drop (16 * (rounds + 1)) invkey"
proof -
  obtain ikey where ikey: "mbedtls_aesni_inverse_key invkey fwdkey (int rounds) = Some ikey"
    "length ikey = length invkey"
    "drop (16 * (rounds + 1)) ikey = drop (16 * (rounds + 1)) invkey"
    "\<And>i. i \<le> rounds \<Longrightarrow>
       round_key_bytes ikey i = deriveDecryptionSchedule (round_key_bytes fwdkey) rounds i"
    using inverse_key_round_key_bytes [OF assms] by blast
  have "round_key_bytes ikey 0 = round_key_bytes fwdkey rounds"
    using ikey(4) [of 0] by (simp add: deriveDecryptionSchedule_def)
  moreover have "round_key_bytes ikey rounds = round_key_bytes fwdkey 0"
    using ikey(4) [of rounds] assms(1) by (simp add: deriveDecryptionSchedule_def)
  moreover have "round_key_bytes ikey i = InvMixColumns (round_key_bytes fwdkey (rounds - i))"
    if "0 < i \<and> i < rounds" for i
    using ikey(4) [of i] that by (simp add: deriveDecryptionSchedule_def)
  ultimately show ?thesis using ikey(1,2,3) by blast
qed

theorem inverse_key_derives_decryption_schedule_witness:
  "\<exists>ikey. mbedtls_aesni_inverse_key (replicate 176 0) (map of_nat [0..<176]) 10 = Some ikey
     \<and> round_key_bytes ikey 0 = round_key_bytes (map of_nat [0..<176]) 10
     \<and> round_key_bytes ikey 10 = round_key_bytes (map of_nat [0..<176]) 0
     \<and> round_key_bytes ikey 3 = InvMixColumns (round_key_bytes (map of_nat [0..<176]) 7)
     \<and> length ikey = 176"
  using inverse_key_derives_decryption_schedule [of 10 "map of_nat [0..<176]" "replicate 176 0"]
  by auto

subsection \<open>Properties of the multiplication in GF(2^128)\<close>

lemma gcm_mult_closed:
  assumes "16 \<le> length a" "16 \<le> length b" "16 \<le> length c"
  shows "mbedtls_aesni_gcm_mult v c a b = Some (multiply a b @ drop 16 c)"
  using gcm_mult_asm_closed [OF assms] gcm_mult_intrinsics_closed [OF assms]
  by (cases v) (simp_all add: mbedtls_aesni_gcm_mult_def)

text \<open>
  C6. In both variants, for inputs \<open>a\<close> and \<open>b\<close> of 16 bytes and an output buffer of at
  least 16 bytes, the function writes \<open>multiply a b\<close>, a function of the two inputs
  alone, into the first 16 bytes of the output; the result is the same with the inputs
  exchanged; and with the all-zero second input the result is all zero.
\<close>

theorem gcm_mult_commutative_absorbs_zero:
  assumes "length a = 16" and "length b = 16" and "16 \<le> length c"
  shows "mbedtls_aesni_gcm_mult v c a b = Some (multiply a b @ drop 16 c)
     \<and> mbedtls_aesni_gcm_mult v c a b = mbedtls_aesni_gcm_mult v c b a
     \<and> mbedtls_aesni_gcm_mult v c a (replicate 16 0) = Some (replicate 16 0 @ drop 16 c)"
  using assms by (simp add: gcm_mult_closed multiply_commute [of a b] multiply_zero)

theorem gcm_mult_commutative_absorbs_zero_witness:
  "mbedtls_aesni_gcm_mult USE_MSVC_X64_INTRINSICS (replicate 16 7)
      [0x66, 0xe9, 0x4b, 0xd4, 0xef, 0x8a, 0x2c, 0x3b, 0x88, 0x4c, 0xfa, 0x59, 0xca, 0x34, 0x2b, 0x2e]
      [0x03, 0x88, 0xda, 0xce, 0x60, 0xb6, 0xa3, 0x92, 0xf3, 0x28, 0xc2, 0xb9, 0x71, 0xb2, 0xfe, 0x78]
   = mbedtls_aesni_gcm_mult USE_MSVC_X64_INTRINSICS (replicate 16 7)
      [0x03, 0x88, 0xda, 0xce, 0x60, 0xb6, 0xa3, 0x92, 0xf3, 0x28, 0xc2, 0xb9, 0x71, 0xb2, 0xfe, 0x78]
      [0x66, 0xe9, 0x4b, 0xd4, 0xef, 0x8a, 0x2c, 0x3b, 0x88, 0x4c, 0xfa, 0x59, 0xca, 0x34, 0x2b, 0x2e]
   \<and> mbedtls_aesni_gcm_mult USE_MSVC_X64_INTRINSICS (replicate 16 7)
      [0x66, 0xe9, 0x4b, 0xd4, 0xef, 0x8a, 0x2c, 0x3b, 0x88, 0x4c, 0xfa, 0x59, 0xca, 0x34, 0x2b, 0x2e]
      (replicate 16 0)
   = Some (replicate 16 0)"
proof -
  let ?H = "[0x66, 0xe9, 0x4b, 0xd4, 0xef, 0x8a, 0x2c, 0x3b, 0x88, 0x4c, 0xfa, 0x59, 0xca, 0x34, 0x2b, 0x2e] :: 8 word list"
  let ?X = "[0x03, 0x88, 0xda, 0xce, 0x60, 0xb6, 0xa3, 0x92, 0xf3, 0x28, 0xc2, 0xb9, 0x71, 0xb2, 0xfe, 0x78] :: 8 word list"
  have "length ?H = 16" "length ?X = 16" "16 \<le> length (replicate 16 (7 :: 8 word))"
    by simp_all
  from gcm_mult_commutative_absorbs_zero [OF this, of USE_MSVC_X64_INTRINSICS]
  show ?thesis by (elim conjE) simp
qed

text \<open>
  C7, as the code has it. In both variants the product of the GHASH test inputs
  \<open>H = 66e94bd4ef8a2c3b884cfa59ca342b2e\<close> and \<open>X = 0388dace60b6a392f328c2b971b2fe78\<close> is
  the 16 bytes \<open>5e2ec746917062882c85b0685353deb7\<close>.
\<close>

theorem gcm_mult_ghash_vector:
  assumes "16 \<le> length c"
  shows "mbedtls_aesni_gcm_mult v c
      [0x66, 0xe9, 0x4b, 0xd4, 0xef, 0x8a, 0x2c, 0x3b, 0x88, 0x4c, 0xfa, 0x59, 0xca, 0x34, 0x2b, 0x2e]
      [0x03, 0x88, 0xda, 0xce, 0x60, 0xb6, 0xa3, 0x92, 0xf3, 0x28, 0xc2, 0xb9, 0x71, 0xb2, 0xfe, 0x78]
   = Some ([0x5e, 0x2e, 0xc7, 0x46, 0x91, 0x70, 0x62, 0x88, 0x2c, 0x85, 0xb0, 0x68, 0x53, 0x53, 0xde, 0xb7]
           @ drop 16 c)"
  using assms by (simp add: gcm_mult_closed ghash_multiply)

theorem gcm_mult_ghash_vector_witness:
  "mbedtls_aesni_gcm_mult INLINE_ASM (replicate 16 0)
      [0x66, 0xe9, 0x4b, 0xd4, 0xef, 0x8a, 0x2c, 0x3b, 0x88, 0x4c, 0xfa, 0x59, 0xca, 0x34, 0x2b, 0x2e]
      [0x03, 0x88, 0xda, 0xce, 0x60, 0xb6, 0xa3, 0x92, 0xf3, 0x28, 0xc2, 0xb9, 0x71, 0xb2, 0xfe, 0x78]
   = Some [0x5e, 0x2e, 0xc7, 0x46, 0x91, 0x70, 0x62, 0x88, 0x2c, 0x85, 0xb0, 0x68, 0x53, 0x53, 0xde, 0xb7]"
  using gcm_mult_ghash_vector [of "replicate 16 0" INLINE_ASM] by simp

text \<open>
  C7, as the claim states it, fails: the value \<open>5e2ec746917062882c85b0685353deb\<close> of
  the specification has 31 hexadecimal digits, and the 16 bytes the function returns,
  read as a number with the most significant byte first, are not that number.
\<close>

theorem gcm_mult_ghash_vector_counterexample:
  "map_option be_word_16 (mbedtls_aesni_gcm_mult INLINE_ASM (replicate 16 0)
      [0x66, 0xe9, 0x4b, 0xd4, 0xef, 0x8a, 0x2c, 0x3b, 0x88, 0x4c, 0xfa, 0x59, 0xca, 0x34, 0x2b, 0x2e]
      [0x03, 0x88, 0xda, 0xce, 0x60, 0xb6, 0xa3, 0x92, 0xf3, 0x28, 0xc2, 0xb9, 0x71, 0xb2, 0xfe, 0x78])
   \<noteq> Some 0x5e2ec746917062882c85b0685353deb"
  by (simp add: gcm_mult_closed ghash_multiply be_word_16_def le_word_def)

end
